theory Spec2Isabelle
  imports Complex_Main
begin

section \<open>Python values used by the scraper\<close>

text \<open>
  A Python \<open>float\<close> is a finite binary fraction, an infinity or a NaN. Every finite float is a
  rational number, so the model carries the exact value; the three special values are kept
  apart because \<open>float('nan')\<close> and \<open>float('inf')\<close> succeed in Python without raising.
\<close>

datatype pyfloat = Finite rat | PosInf | NegInf | NaN

text \<open>The chained comparison \<open>0.5 < rate < 2.5\<close> of lines 132 and 158 of \<open>app.py\<close>.\<close>

fun plausible :: "pyfloat \<Rightarrow> bool" where
  "plausible (Finite q) = (1 / 2 < q \<and> q < 5 / 2)"
| "plausible PosInf = False"
| "plausible NegInf = False"
| "plausible NaN = False"

text \<open>
  Truthiness of \<open>cad_rate\<close> in \<open>if cad_rate:\<close> and \<open>if not cad_rate:\<close>: \<open>None\<close> and zero
  are false, every other float (NaN included) is true.
\<close>

fun truthy :: "pyfloat option \<Rightarrow> bool" where
  "truthy None = False"
| "truthy (Some (Finite q)) = (q \<noteq> 0)"
| "truthy (Some PosInf) = True"
| "truthy (Some NegInf) = True"
| "truthy (Some NaN) = True"

subsection \<open>Strings\<close>

text \<open>\<open>sub in s\<close> on Python strings: \<open>sub\<close> occurs in \<open>s\<close> as a contiguous block.\<close>

fun starts_with :: "string \<Rightarrow> string \<Rightarrow> bool" where
  "starts_with [] s = True"
| "starts_with (p # ps) [] = False"
| "starts_with (p # ps) (c # cs) = (p = c \<and> starts_with ps cs)"

fun contains :: "string \<Rightarrow> string \<Rightarrow> bool" where
  "contains sub [] = (sub = [])"
| "contains sub (c # cs) = (starts_with sub (c # cs) \<or> contains sub cs)"

text \<open>\<open>s.replace(',', '')\<close>\<close>

definition remove_commas :: "string \<Rightarrow> string" where
  "remove_commas s = filter (\<lambda>c. c \<noteq> CHR '','') s"

subsection \<open>The two regular expressions\<close>

text \<open>
  The patterns of lines 150 and 151 are built from three character classes, each used once,
  under a greedy star or a greedy plus. \<open>matchp\<close> is the backtracking matcher of Python's
  \<open>re\<close> for such a sequence of pieces, anchored at the head of the string: a greedy piece
  first takes one more character and only when the rest of the pattern then fails gives it
  back. The result lists what every piece consumed. Characters are Isabelle's 8-bit \<open>char\<close>;
  among these the decimal digits are \<open>0\<close> to \<open>9\<close>.
\<close>

definition is_digit :: "char \<Rightarrow> bool" where
  "is_digit c = (c \<in> set ''0123456789'')"

datatype cls = Chr char | Digit | NonDigit

fun accepts :: "cls \<Rightarrow> char \<Rightarrow> bool" where
  "accepts (Chr k) c = (c = k)"
| "accepts Digit c = is_digit c"
| "accepts NonDigit c = (\<not> is_digit c)"

datatype piece = One cls | Star cls | Plus cls

fun push :: "char \<Rightarrow> string list \<Rightarrow> string list" where
  "push c [] = [[c]]"
| "push c (x # xs) = (c # x) # xs"

fun matchp :: "piece list \<Rightarrow> string \<Rightarrow> string list option" where
  "matchp [] s = Some []"
| "matchp (One a # ps) [] = None"
| "matchp (One a # ps) (c # cs) =
     (if accepts a c then map_option ((#) [c]) (matchp ps cs) else None)"
| "matchp (Plus a # ps) [] = None"
| "matchp (Plus a # ps) (c # cs) =
     (if accepts a c then map_option (push c) (matchp (Star a # ps) cs) else None)"
| "matchp (Star a # ps) [] = map_option ((#) []) (matchp ps [])"
| "matchp (Star a # ps) (c # cs) =
     (if accepts a c
      then (case matchp (Star a # ps) cs of
              Some caps \<Rightarrow> Some (push c caps)
            | None \<Rightarrow> map_option ((#) []) (matchp ps (c # cs)))
      else map_option ((#) []) (matchp ps (c # cs)))"

text \<open>
  A pattern is the pieces before its capturing group and the pieces of the group, which in
  both patterns closes the expression. \<open>re_search\<close> is \<open>re.search(pattern, s)\<close> followed by
  \<open>match.group(1)\<close>: the leftmost position at which the pattern matches, and there the text
  of the group.
\<close>

type_synonym pattern = "piece list \<times> piece list"

fun re_search :: "pattern \<Rightarrow> string \<Rightarrow> string option" where
  "re_search p [] =
     (case matchp (fst p @ snd p) [] of
        Some caps \<Rightarrow> Some (concat (drop (length (fst p)) caps))
      | None \<Rightarrow> None)"
| "re_search p (c # cs) =
     (case matchp (fst p @ snd p) (c # cs) of
        Some caps \<Rightarrow> Some (concat (drop (length (fst p)) caps))
      | None \<Rightarrow> re_search p cs)"

definition lit :: "string \<Rightarrow> piece list" where
  "lit s = map (\<lambda>c. One (Chr c)) s"

definition decimal_group :: "piece list" where
  "decimal_group = [Plus Digit, One (Chr CHR ''.''), Plus Digit]"

text \<open>\<open>r'CAD[^\d]*(\d+\.\d+)'\<close> and \<open>r'Canadian Dollar[^\d]*(\d+\.\d+)'\<close>\<close>

definition cad_pattern :: pattern where
  "cad_pattern = (lit ''CAD'' @ [Star NonDigit], decimal_group)"

definition name_pattern :: pattern where
  "name_pattern = (lit ''Canadian Dollar'' @ [Star NonDigit], decimal_group)"

definition patterns :: "pattern list" where
  "patterns = [cad_pattern, name_pattern]"

section \<open>The rate extractor (lines 117 to 162 of \<open>scrape_xe_rate\<close>)\<close>

text \<open>
  What the markup parser hands over: for every \<open>tr\<close> element, in document order, the stripped
  texts of its \<open>td\<close> and \<open>th\<close> cells, and the text of the whole page.
\<close>

record document =
  rows :: "string list list"
  text_content :: string

text \<open>
  Python's \<open>float(str)\<close> is a parameter \<open>to_float\<close> of the model: \<open>None\<close> stands for
  \<open>ValueError\<close>. The loops thread \<open>cad_rate\<close> as the code does.

  \<open>scan_following\<close> is the loop over \<open>j\<close> (lines 129 to 136) on the cells after the marker.
\<close>

fun scan_following :: "(string \<Rightarrow> pyfloat option) \<Rightarrow> string list \<Rightarrow> pyfloat option \<Rightarrow> pyfloat option" where
  "scan_following to_float [] cad_rate = cad_rate"
| "scan_following to_float (cell # cells) cad_rate =
     (case to_float (remove_commas cell) of
        None \<Rightarrow> scan_following to_float cells cad_rate
      | Some rate \<Rightarrow>
          if plausible rate then Some rate
          else scan_following to_float cells cad_rate)"

text \<open>The test of line 127.\<close>

definition is_marker :: "string \<Rightarrow> bool" where
  "is_marker text = (contains ''CAD'' text \<or> contains ''Canadian Dollar'' text)"

text \<open>The loop over \<open>i\<close> (lines 126 to 138); the list is \<open>cell_text[i:]\<close>.\<close>

fun scan_cells :: "(string \<Rightarrow> pyfloat option) \<Rightarrow> string list \<Rightarrow> pyfloat option \<Rightarrow> pyfloat option" where
  "scan_cells to_float [] cad_rate = cad_rate"
| "scan_cells to_float (text # following) cad_rate =
     (if is_marker text
      then (let cad_rate' = scan_following to_float following cad_rate
            in if truthy cad_rate' then cad_rate'
               else scan_cells to_float following cad_rate')
      else scan_cells to_float following cad_rate)"

text \<open>The loop over the rows (lines 121 to 140).\<close>

fun scan_rows :: "(string \<Rightarrow> pyfloat option) \<Rightarrow> string list list \<Rightarrow> pyfloat option \<Rightarrow> pyfloat option" where
  "scan_rows to_float [] cad_rate = cad_rate"
| "scan_rows to_float (cell_text # later) cad_rate =
     (let cad_rate' = scan_cells to_float cell_text cad_rate
      in if truthy cad_rate' then cad_rate'
         else scan_rows to_float later cad_rate')"

text \<open>The loop over the patterns (lines 153 to 162).\<close>

fun try_patterns :: "(string \<Rightarrow> pyfloat option) \<Rightarrow> pattern list \<Rightarrow> string \<Rightarrow> pyfloat option \<Rightarrow> pyfloat option" where
  "try_patterns to_float [] text cad_rate = cad_rate"
| "try_patterns to_float (p # ps) text cad_rate =
     (case re_search p text of
        None \<Rightarrow> try_patterns to_float ps text cad_rate
      | Some g \<Rightarrow>
          (case to_float g of
             None \<Rightarrow> try_patterns to_float ps text cad_rate
           | Some rate \<Rightarrow>
               if plausible rate then Some rate
               else try_patterns to_float ps text cad_rate))"

text \<open>Method 1 (lines 117 to 140) and method 2 (lines 143 to 162).\<close>

definition table_method :: "(string \<Rightarrow> pyfloat option) \<Rightarrow> document \<Rightarrow> pyfloat option" where
  "table_method to_float doc = scan_rows to_float (rows doc) None"

definition text_method :: "(string \<Rightarrow> pyfloat option) \<Rightarrow> document \<Rightarrow> pyfloat option \<Rightarrow> pyfloat option" where
  "text_method to_float doc cad_rate =
     (if contains ''CAD'' (text_content doc)
      then try_patterns to_float patterns (text_content doc) cad_rate
      else cad_rate)"

definition extract_rate :: "(string \<Rightarrow> pyfloat option) \<Rightarrow> document \<Rightarrow> pyfloat option" where
  "extract_rate to_float doc =
     (let cad_rate = table_method to_float doc
      in if \<not> truthy cad_rate then text_method to_float doc cad_rate else cad_rate)"

section \<open>The rate limiter\<close>

text \<open>
  The program has one \<open>RateLimiter\<close>, the module-level \<open>rate_limiter\<close> of lines 55 to 60; its
  four constructor arguments are never assigned again and are constants here. The record is
  the part of the object that \<open>wait\<close> changes.
\<close>

definition min_delay :: rat where "min_delay = 5 / 2"
definition max_delay :: rat where "max_delay = 5"
definition burst_limit :: nat where "burst_limit = 5"
definition burst_cooldown :: rat where "burst_cooldown = 20"

record RateLimiter =
  request_count :: nat
  last_request_time :: rat
  session_start :: rat

text \<open>
  What one call of \<open>scrape_xe_rate\<close> receives from outside the program: the number that
  \<open>random.uniform\<close> returns, the two readings of \<open>time.time()\<close> in \<open>wait\<close> (line 45 and,
  after any sleep, line 50), and what the transport and the markup parser make of the URL.
  Delays and clock readings are floats. A float sum or difference is the exact result
  rounded to a float; \<open>rounded\<close> is that rounding.
\<close>

datatype outcome =
    Timeout
  | RequestException string
  | OtherException string
  | Page document

record call_env =
  rounded :: "rat \<Rightarrow> rat"
  uniform :: "rat \<Rightarrow> rat \<Rightarrow> rat"
  time_before :: rat
  time_after :: rat
  response :: "string \<Rightarrow> outcome"

text \<open>
  \<open>RateLimiter.wait\<close>: returns the chosen delay and the limiter after the call. The sleep
  only moves the clock, whose next reading is \<open>time_after\<close>; \<open>sleep_time\<close> is the argument
  of \<open>time.sleep\<close> (lines 45 to 48), \<open>None\<close> when the call does not sleep.
\<close>

definition choose_delay :: "call_env \<Rightarrow> nat \<Rightarrow> rat" where
  "choose_delay env n =
     (if n mod burst_limit = 0 then rounded env (burst_cooldown + uniform env 0 5)
      else uniform env min_delay max_delay)"

definition sleep_time :: "call_env \<Rightarrow> RateLimiter \<Rightarrow> rat \<Rightarrow> rat option" where
  "sleep_time env rl delay =
     (let elapsed = rounded env (time_before env - last_request_time rl)
      in if elapsed < delay then Some (rounded env (delay - elapsed)) else None)"

definition wait :: "call_env \<Rightarrow> RateLimiter \<Rightarrow> rat \<times> RateLimiter" where
  "wait env rl =
     (let n = request_count rl + 1;
          delay = choose_delay env n
      in (delay, rl\<lparr>request_count := n, last_request_time := time_after env\<rparr>))"

section \<open>The single-date fetcher\<close>

datatype status = Success | Not_found | Error

record FetchResult =
  date :: string
  rate :: "pyfloat option"
  status :: status
  error :: "string option"

definition url_for :: "string \<Rightarrow> string" where
  "url_for date_str = ''https://www.xe.com/currencytables/?from=USD&date='' @ date_str"

text \<open>
  The world answers the calls in the order they are made: \<open>world n\<close> is what the call made
  after \<open>n\<close> earlier ones receives.
\<close>

type_synonym world = "nat \<Rightarrow> call_env"

definition result_of :: "(string \<Rightarrow> pyfloat option) \<Rightarrow> string \<Rightarrow> outcome \<Rightarrow> FetchResult" where
  "result_of to_float date_str out =
     (case out of
        Page doc \<Rightarrow>
          (let cad_rate = extract_rate to_float doc
           in if truthy cad_rate
              then \<lparr>date = date_str, rate = cad_rate, status = Success, error = None\<rparr>
              else \<lparr>date = date_str, rate = None, status = Not_found,
                    error = Some ''CAD rate not found in page''\<rparr>)
      | Timeout \<Rightarrow>
          \<lparr>date = date_str, rate = None, status = Error, error = Some ''Request timed out''\<rparr>
      | RequestException msg \<Rightarrow>
          \<lparr>date = date_str, rate = None, status = Error, error = Some msg\<rparr>
      | OtherException msg \<Rightarrow>
          \<lparr>date = date_str, rate = None, status = Error,
           error = Some (''Parsing error: '' @ msg)\<rparr>)"

definition scrape_xe_rate ::
  "(string \<Rightarrow> pyfloat option) \<Rightarrow> world \<Rightarrow> RateLimiter \<Rightarrow> string \<Rightarrow> FetchResult \<times> RateLimiter" where
  "scrape_xe_rate to_float w rl date_str =
     (let env = w (request_count rl);
          rl' = snd (wait env rl)
      in (result_of to_float date_str (response env (url_for date_str)), rl'))"

section \<open>The range endpoint\<close>

text \<open>
  \<open>datetime.strptime(s, '%Y-%m-%d')\<close> returns a midnight \<open>datetime\<close>; the model holds it as
  its proleptic Gregorian ordinal (\<open>toordinal()\<close>), on which the library itself compares,
  subtracts and adds days. The last day a \<open>datetime\<close> can hold is 9999-12-31, ordinal
  3652059; adding a \<open>timedelta\<close> that leaves the range raises \<open>OverflowError\<close>.
  \<open>strptime\<close> (\<open>None\<close> for \<open>ValueError\<close>) and \<open>strftime\<close> are parameters.
\<close>

type_synonym datetime = int

definition MAXORDINAL :: int where
  "MAXORDINAL = 3652059"

datatype exn = OverflowError | ValueError | TypeError | AttributeError

definition add_one_day :: "datetime \<Rightarrow> exn + datetime" where
  "add_one_day d = (if d + 1 > MAXORDINAL then Inl OverflowError else Inr (d + 1))"

function get_date_range_loop ::
  "(datetime \<Rightarrow> string) \<Rightarrow> datetime \<Rightarrow> datetime \<Rightarrow> string list \<Rightarrow> exn + string list" where
  "get_date_range_loop strftime current end_date dates =
     (if current \<le> end_date
      then (case add_one_day current of
              Inl e \<Rightarrow> Inl e
            | Inr next_day \<Rightarrow>
                get_date_range_loop strftime next_day end_date (dates @ [strftime current]))
      else Inr dates)"
  by pat_completeness auto
termination
  by (relation "measure (\<lambda>(f, current, end_date, dates). nat (end_date + 1 - current))")
     (auto simp: add_one_day_def split: if_splits)

definition get_date_range :: "(datetime \<Rightarrow> string) \<Rightarrow> datetime \<Rightarrow> datetime \<Rightarrow> exn + string list" where
  "get_date_range strftime start_date end_date =
     get_date_range_loop strftime start_date end_date []"

text \<open>The loop of lines 249 to 252.\<close>

fun scrape_each ::
  "(string \<Rightarrow> pyfloat option) \<Rightarrow> world \<Rightarrow> RateLimiter \<Rightarrow> string list \<Rightarrow> FetchResult list
     \<Rightarrow> FetchResult list \<times> RateLimiter" where
  "scrape_each to_float w rl [] results = (results, rl)"
| "scrape_each to_float w rl (date_str # later) results =
     (let (result, rl') = scrape_xe_rate to_float w rl date_str
      in scrape_each to_float w rl' later (results @ [result]))"

text \<open>
  What the handler gives back: a 400 response with its message, the 200 response with the
  results, their number and the number of successes, or an exception that leaves the
  handler.
\<close>

datatype reply =
    Bad_request string
  | Ok_results "FetchResult list" nat nat
  | Unhandled exn

text \<open>
  The request body as \<open>request.get_json()\<close> returns it: \<open>None\<close>, a bool, a number, a string,
  a list or a dict (its items, every key once). \<open>falsy\<close> is Python's \<open>not\<close> on such a value,
  \<open>dict_get\<close> is \<open>data.get(key)\<close>.
\<close>

datatype jvalue =
    JNull
  | JBool bool
  | JNumber rat
  | JString string
  | JArray "jvalue list"
  | JObject "(string \<times> jvalue) list"

fun falsy :: "jvalue \<Rightarrow> bool" where
  "falsy JNull = True"
| "falsy (JBool b) = (\<not> b)"
| "falsy (JNumber q) = (q = 0)"
| "falsy (JString s) = (s = [])"
| "falsy (JArray xs) = (xs = [])"
| "falsy (JObject items) = (items = [])"

definition dict_get :: "(string \<times> jvalue) list \<Rightarrow> string \<Rightarrow> jvalue" where
  "dict_get items key = (case map_of items key of None \<Rightarrow> JNull | Some v \<Rightarrow> v)"

text \<open>
  \<open>datetime.strptime(v, '%Y-%m-%d')\<close> on a value of the body: \<open>TypeError\<close> when \<open>v\<close> is not a
  string, \<open>ValueError\<close> when the string is not a date in that format.
\<close>

fun strptime_arg :: "(string \<Rightarrow> datetime option) \<Rightarrow> jvalue \<Rightarrow> exn + datetime" where
  "strptime_arg strptime (JString s) =
     (case strptime s of None \<Rightarrow> Inl ValueError | Some d \<Rightarrow> Inr d)"
| "strptime_arg strptime JNull = Inl TypeError"
| "strptime_arg strptime (JBool b) = Inl TypeError"
| "strptime_arg strptime (JNumber q) = Inl TypeError"
| "strptime_arg strptime (JArray xs) = Inl TypeError"
| "strptime_arg strptime (JObject items) = Inl TypeError"

text \<open>Lines 238 to 259: the two checks on the dates, then the fetches.\<close>

definition scrape_range ::
  "(datetime \<Rightarrow> string) \<Rightarrow> (string \<Rightarrow> pyfloat option) \<Rightarrow> world \<Rightarrow> RateLimiter
     \<Rightarrow> datetime \<Rightarrow> datetime \<Rightarrow> reply \<times> RateLimiter" where
  "scrape_range strftime to_float w rl start_date end_date =
     (if start_date > end_date
      then (Bad_request ''Start date must be before end date'', rl)
      else if end_date - start_date > 90
      then (Bad_request ''Date range cannot exceed 90 days to prevent rate limiting issues'', rl)
      else
        (case get_date_range strftime start_date end_date of
           Inl e \<Rightarrow> (Unhandled e, rl)
         | Inr dates \<Rightarrow>
             (let (results, rl') = scrape_each to_float w rl dates []
              in (Ok_results results (length results)
                    (length (filter (\<lambda>r. status r = Success) results)), rl'))))"

text \<open>
  The handler. Of the exceptions of \<open>strptime\<close> only \<open>ValueError\<close> is caught (line 235); a
  body that is not a dict has no \<open>get\<close>.
\<close>

definition on_strptime_error :: "exn \<Rightarrow> RateLimiter \<Rightarrow> reply \<times> RateLimiter" where
  "on_strptime_error e rl =
     (if e = ValueError then (Bad_request ''Invalid date format. Use YYYY-MM-DD'', rl)
      else (Unhandled e, rl))"

definition scrape_rates ::
  "(string \<Rightarrow> datetime option) \<Rightarrow> (datetime \<Rightarrow> string) \<Rightarrow> (string \<Rightarrow> pyfloat option) \<Rightarrow> world
     \<Rightarrow> RateLimiter \<Rightarrow> jvalue \<Rightarrow> reply \<times> RateLimiter" where
  "scrape_rates strptime strftime to_float w rl data =
     (case data of
        JObject items \<Rightarrow>
          (let start_date_str = dict_get items ''start_date'';
               end_date_str = dict_get items ''end_date''
           in if falsy start_date_str \<or> falsy end_date_str
              then (Bad_request ''Start and end dates are required'', rl)
              else
                (case strptime_arg strptime start_date_str of
                   Inl e \<Rightarrow> on_strptime_error e rl
                 | Inr start_date \<Rightarrow>
                     (case strptime_arg strptime end_date_str of
                        Inl e \<Rightarrow> on_strptime_error e rl
                      | Inr end_date \<Rightarrow>
                          scrape_range strftime to_float w rl start_date end_date)))
      | _ \<Rightarrow> (Unhandled AttributeError, rl))"

section \<open>The behaviour the specification describes\<close>

text \<open>
  These definitions follow the specification's wording and are compared with the loops above.
  A string is accepted when it parses to a value in the plausible range.
\<close>

definition accept :: "(string \<Rightarrow> pyfloat option) \<Rightarrow> string \<Rightarrow> pyfloat option" where
  "accept to_float s =
     (case to_float s of None \<Rightarrow> None | Some r \<Rightarrow> if plausible r then Some r else None)"

text \<open>The first element of a list, from the left, for which \<open>f\<close> has a value.\<close>

fun first_some :: "('a \<Rightarrow> 'b option) \<Rightarrow> 'a list \<Rightarrow> 'b option" where
  "first_some f [] = None"
| "first_some f (x # xs) = (case f x of Some y \<Rightarrow> Some y | None \<Rightarrow> first_some f xs)"

text \<open>
  Structured scan: in a row, the cells after the first marker cell are read from the left and
  the first accepted one, commas removed, is the row's value; the table's value is that of
  the first row, in document order, that has one.
\<close>

definition mentions_cad :: "string \<Rightarrow> bool" where
  "mentions_cad t = (contains ''CAD'' t \<or> contains ''Canadian Dollar'' t)"

definition without_commas :: "string \<Rightarrow> string" where
  "without_commas cell = [c \<leftarrow> cell. c \<noteq> CHR '','']"

definition spec_row :: "(string \<Rightarrow> pyfloat option) \<Rightarrow> string list \<Rightarrow> pyfloat option" where
  "spec_row to_float row =
     (case dropWhile (\<lambda>t. \<not> mentions_cad t) row of
        [] \<Rightarrow> None
      | m # following \<Rightarrow> first_some (\<lambda>cell. accept to_float (without_commas cell)) following)"

definition spec_table :: "(string \<Rightarrow> pyfloat option) \<Rightarrow> string list list \<Rightarrow> pyfloat option" where
  "spec_table to_float rs = first_some (spec_row to_float) rs"

text \<open>
  Pattern fallback: when the text holds the currency code, the value of the first match of
  the code pattern if accepted, else that of the first match of the name pattern.
\<close>

definition pattern_value :: "(string \<Rightarrow> pyfloat option) \<Rightarrow> pattern \<Rightarrow> string \<Rightarrow> pyfloat option" where
  "pattern_value to_float p text =
     (case re_search p text of None \<Rightarrow> None | Some g \<Rightarrow> accept to_float g)"

definition spec_fallback :: "(string \<Rightarrow> pyfloat option) \<Rightarrow> string \<Rightarrow> pyfloat option" where
  "spec_fallback to_float text =
     (if contains ''CAD'' text
      then (case pattern_value to_float cad_pattern text of
              Some r \<Rightarrow> Some r
            | None \<Rightarrow> pattern_value to_float name_pattern text)
      else None)"

text \<open>A run of characters of class \<open>a\<close> cannot be extended into \<open>s\<close>.\<close>

fun blocked :: "cls \<Rightarrow> string \<Rightarrow> bool" where
  "blocked a [] = True"
| "blocked a (c # cs) = (\<not> accepts a c)"

text \<open>The result of the call that is made after \<open>n\<close> earlier ones, for the date \<open>d\<close>.\<close>

definition fetch_at :: "(string \<Rightarrow> pyfloat option) \<Rightarrow> world \<Rightarrow> nat \<times> string \<Rightarrow> FetchResult" where
  "fetch_at to_float w nd = result_of to_float (snd nd) (response (w (fst nd)) (url_for (snd nd)))"

text \<open>
  The boundary's rule for a range request: both dates present and not empty, both parseable,
  start not after end, and at most 90 days apart.
\<close>

definition valid_request :: "(string \<Rightarrow> datetime option) \<Rightarrow> jvalue \<Rightarrow> jvalue \<Rightarrow> bool" where
  "valid_request strptime s e =
     (case (s, e) of
        (JString x, JString y) \<Rightarrow>
          x \<noteq> [] \<and> y \<noteq> [] \<and>
          (case (strptime x, strptime y) of
             (Some a, Some b) \<Rightarrow> a \<le> b \<and> b - a \<le> 90
           | _ \<Rightarrow> False)
      | _ \<Rightarrow> False)"

section \<open>Concrete inputs\<close>

text \<open>
  A few points of the graphs of \<open>float\<close>, \<open>strptime\<close> and \<open>strftime\<close> (a decimal literal
  stands for the float nearest to it; the ordinals are those of \<open>date.toordinal()\<close>), the
  limiter as the module creates it, and environments that answer every request alike. The
  sample environments draw the lower end of the interval and read the clock at floats whose
  sums and differences with the delays are floats, so that nothing is rounded in them.
\<close>

definition sample_float :: "string \<Rightarrow> pyfloat option" where
  "sample_float s =
     (if s = ''1.3612'' then Some (Finite (13612 / 10000))
      else if s = ''1.29'' then Some (Finite (129 / 100))
      else if s = ''150.0'' then Some (Finite 150)
      else if s = ''1.25'' then Some (Finite (5 / 4))
      else if s = ''1.5'' then Some (Finite (3 / 2))
      else if s = ''7.5'' then Some (Finite (15 / 2))
      else None)"

definition sample_strptime :: "string \<Rightarrow> datetime option" where
  "sample_strptime s =
     (if s = ''2024-02-27'' then Some 738943
      else if s = ''2024-03-01'' then Some 738946
      else if s = ''9999-12-31'' then Some 3652059
      else None)"

definition sample_strftime :: "datetime \<Rightarrow> string" where
  "sample_strftime d =
     (if d = 738943 then ''2024-02-27''
      else if d = 738944 then ''2024-02-28''
      else if d = 738945 then ''2024-02-29''
      else if d = 738946 then ''2024-03-01''
      else if d = 3652059 then ''9999-12-31''
      else ''?'')"

definition rate_limiter :: "rat \<Rightarrow> RateLimiter" where
  "rate_limiter t0 = \<lparr>request_count = 0, last_request_time = 0, session_start = t0\<rparr>"

definition sample_env :: "outcome \<Rightarrow> call_env" where
  "sample_env out =
     \<lparr>rounded = (\<lambda>x. x), uniform = (\<lambda>a b. a), time_before = 0, time_after = 0,
      response = (\<lambda>url. out)\<rparr>"

definition timed_env :: "rat \<Rightarrow> rat \<Rightarrow> call_env" where
  "timed_env t_before t_after =
     \<lparr>rounded = (\<lambda>x. x), uniform = (\<lambda>a b. a), time_before = t_before, time_after = t_after,
      response = (\<lambda>url. Timeout)\<rparr>"

definition range_request :: "string \<Rightarrow> string \<Rightarrow> jvalue" where
  "range_request s e = JObject [(''start_date'', JString s), (''end_date'', JString e)]"

definition sample_world :: "outcome \<Rightarrow> world" where
  "sample_world out = (\<lambda>n. sample_env out)"

definition sample_page :: document where
  "sample_page =
     \<lparr>rows = [[''USD'', ''US Dollar'', ''1''], [''CAD'', ''Canadian Dollar'', ''1.3612'', ''0.7346'']],
      text_content = ''USDUS Dollar1CADCanadian Dollar1.36120.7346''\<rparr>"

definition empty_page :: document where
  "empty_page = \<lparr>rows = [], text_content = []\<rparr>"

section \<open>The structured scan computes the described value\<close>

lemma marker_test: "is_marker t = mentions_cad t"
  by (simp add: is_marker_def mentions_cad_def)

lemma commas_stripped: "remove_commas cell = without_commas cell"
  by (simp add: remove_commas_def without_commas_def)

lemma plausible_truthy: "plausible r \<Longrightarrow> truthy (Some r)"
  by (cases r) auto

lemma plausible_finite: "plausible v \<Longrightarrow> \<exists>q. v = Finite q \<and> 1 / 2 < q \<and> q < 5 / 2"
  by (cases v) auto

lemma accept_plausible: "accept pf s = Some r \<Longrightarrow> plausible r"
  by (auto simp: accept_def split: option.splits if_splits)

lemma accept_eq: "pf s = Some r \<Longrightarrow> plausible r \<Longrightarrow> accept pf s = Some r"
  by (simp add: accept_def)

lemma first_some_append:
  "first_some f (xs @ ys) = (case first_some f xs of Some y \<Rightarrow> Some y | None \<Rightarrow> first_some f ys)"
  by (induction xs) (auto split: option.splits)

lemma first_some_plausible:
  "first_some (\<lambda>cell. accept pf (without_commas cell)) cells = Some r \<Longrightarrow> plausible r"
  by (induction cells) (auto split: option.splits dest: accept_plausible)

lemma scan_following_eq:
  "scan_following pf cells cad =
     (case first_some (\<lambda>cell. accept pf (without_commas cell)) cells of Some r \<Rightarrow> Some r | None \<Rightarrow> cad)"
  by (induction cells) (auto simp: accept_def commas_stripped split: option.splits)

lemma scan_cells_none:
  "first_some (\<lambda>cell. accept pf (without_commas cell)) cells = None \<Longrightarrow> scan_cells pf cells cad = cad"
  by (induction cells) (auto simp: scan_following_eq marker_test Let_def split: option.splits)

lemma spec_row_plausible: "spec_row pf row = Some r \<Longrightarrow> plausible r"
  by (auto simp: spec_row_def split: list.splits dest: first_some_plausible)

lemma scan_cells_eq:
  "scan_cells pf row cad = (case spec_row pf row of Some r \<Rightarrow> Some r | None \<Rightarrow> cad)"
proof (induction row)
  case Nil
  show ?case by (simp add: spec_row_def)
next
  case (Cons t following)
  show ?case
  proof (cases "mentions_cad t")
    case False
    with Cons show ?thesis by (simp add: spec_row_def marker_test)
  next
    case True
    show ?thesis
    proof (cases "first_some (\<lambda>cell. accept pf (without_commas cell)) following")
      case None
      with True show ?thesis
        by (simp add: spec_row_def scan_following_eq scan_cells_none marker_test Let_def)
    next
      case (Some r)
      then have "truthy (Some r)" by (intro plausible_truthy first_some_plausible)
      with True Some show ?thesis
        by (simp add: spec_row_def scan_following_eq marker_test Let_def)
    qed
  qed
qed

lemma spec_table_plausible: "spec_table pf rs = Some r \<Longrightarrow> plausible r"
  unfolding spec_table_def
  by (induction rs) (auto split: option.splits dest: spec_row_plausible)

lemma scan_rows_eq: "scan_rows pf rs None = spec_table pf rs"
proof (induction rs)
  case Nil
  show ?case by (simp add: spec_table_def)
next
  case (Cons row later)
  show ?case
  proof (cases "spec_row pf row")
    case None
    with Cons show ?thesis by (simp add: spec_table_def scan_cells_eq)
  next
    case (Some r)
    then have "truthy (Some r)" by (intro plausible_truthy spec_row_plausible)
    with Some show ?thesis by (simp add: spec_table_def scan_cells_eq)
  qed
qed

lemma spec_row_at:
  assumes "list_all (\<lambda>t. \<not> mentions_cad t) pre" and "mentions_cad m"
    and "list_all (\<lambda>x. accept pf (without_commas x) = None) mid"
    and "accept pf (without_commas c) = Some r"
  shows "spec_row pf (pre @ m # mid @ c # post) = Some r"
proof -
  have "dropWhile (\<lambda>t. \<not> mentions_cad t) (pre @ m # mid @ c # post) = m # mid @ c # post"
    using assms(1,2) by (induction pre) auto
  moreover have "first_some (\<lambda>cell. accept pf (without_commas cell)) mid = None"
    using assms(3) by (induction mid) auto
  ultimately show ?thesis
    using assms(4) by (simp add: spec_row_def first_some_append)
qed

lemma spec_table_at:
  "spec_table pf before = None \<Longrightarrow> spec_row pf row = Some r \<Longrightarrow>
     spec_table pf (before @ row # after) = Some r"
  by (simp add: spec_table_def first_some_append)

section \<open>The pattern fallback\<close>

lemma try_patterns_eq:
  "try_patterns pf ps text cad =
     (case first_some (\<lambda>p. pattern_value pf p text) ps of Some r \<Rightarrow> Some r | None \<Rightarrow> cad)"
  by (induction ps) (auto simp: pattern_value_def accept_def split: option.splits)

lemma text_method_eq: "text_method pf doc None = spec_fallback pf (text_content doc)"
  by (simp add: text_method_def spec_fallback_def try_patterns_eq patterns_def split: option.splits)

lemma pattern_value_plausible: "pattern_value pf p text = Some r \<Longrightarrow> plausible r"
  by (auto simp: pattern_value_def split: option.splits dest: accept_plausible)

lemma spec_fallback_plausible: "spec_fallback pf text = Some r \<Longrightarrow> plausible r"
  by (auto simp: spec_fallback_def split: option.splits if_splits dest: pattern_value_plausible)

lemma extract_rate_eq:
  "extract_rate pf doc =
     (case table_method pf doc of Some r \<Rightarrow> Some r | None \<Rightarrow> spec_fallback pf (text_content doc))"
proof (cases "table_method pf doc")
  case None
  then show ?thesis by (simp add: extract_rate_def text_method_eq)
next
  case (Some r)
  then have "plausible r" by (simp add: table_method_def scan_rows_eq spec_table_plausible)
  then have "truthy (Some r)" by (rule plausible_truthy)
  with Some show ?thesis by (simp add: extract_rate_def)
qed

lemma extract_rate_plausible: "extract_rate pf doc = Some r \<Longrightarrow> plausible r"
  by (auto simp: extract_rate_eq table_method_def scan_rows_eq split: option.splits
      dest: spec_table_plausible spec_fallback_plausible)

lemma extract_rate_truthy: "truthy (extract_rate pf doc) \<longleftrightarrow> extract_rate pf doc \<noteq> None"
proof (cases "extract_rate pf doc")
  case None
  then show ?thesis by simp
next
  case (Some r)
  then show ?thesis using plausible_truthy [OF extract_rate_plausible [OF Some]] by simp
qed

subsection \<open>Where the code pattern first matches\<close>

lemma matchp_star_run:
  assumes "list_all (accepts a) xs" and "blocked a rest" and "matchp ps rest = Some caps"
  shows "matchp (Star a # ps) (xs @ rest) = Some (xs # caps)"
  using assms
proof (induction xs)
  case Nil
  then show ?case by (cases rest) auto
next
  case (Cons x xs)
  then show ?case by simp
qed

lemma matchp_plus_run:
  assumes "list_all (accepts a) xs" and "xs \<noteq> []" and "blocked a rest"
    and "matchp ps rest = Some caps"
  shows "matchp (Plus a # ps) (xs @ rest) = Some (xs # caps)"
proof (cases xs)
  case Nil
  with assms show ?thesis by simp
next
  case (Cons x xs')
  with assms have "matchp (Star a # ps) (xs' @ rest) = Some (xs' # caps)"
    by (intro matchp_star_run) auto
  with Cons assms show ?thesis by simp
qed

lemma matchp_lit:
  "matchp (lit k @ ps) (k @ rest) = map_option ((@) (map (\<lambda>c. [c]) k)) (matchp ps rest)"
  by (induction k) (auto simp: lit_def option.map_comp comp_def option.map_ident)

lemma matchp_lit_starts:
  "matchp (lit k @ ps) s = Some caps \<Longrightarrow> starts_with k s"
proof (induction k arbitrary: s caps)
  case Nil
  show ?case by simp
next
  case (Cons c k)
  then show ?case by (cases s) (auto simp: lit_def split: if_splits)
qed

lemma matchp_decimal_group:
  assumes "list_all is_digit ip" "ip \<noteq> []" "list_all is_digit fp" "fp \<noteq> []"
    and "blocked Digit post"
  shows "matchp decimal_group (ip @ ''.'' @ fp @ post) = Some [ip, ''.'', fp]"
proof -
  have fp: "matchp [Plus Digit] (fp @ post) = Some [fp]"
    using assms by (intro matchp_plus_run) (auto simp: list_all_iff)
  have dot: "matchp [One (Chr CHR ''.''), Plus Digit] (''.'' @ fp @ post) = Some [''.'', fp]"
    using fp by simp
  have "blocked Digit (''.'' @ fp @ post)" by (simp add: is_digit_def)
  with dot assms show ?thesis
    unfolding decimal_group_def by (intro matchp_plus_run) (auto simp: list_all_iff)
qed

lemma matchp_marker_decimal:
  assumes "list_all (\<lambda>c. \<not> is_digit c) gap"
    and "list_all is_digit ip" "ip \<noteq> []" "list_all is_digit fp" "fp \<noteq> []"
    and "blocked Digit post"
  shows "matchp (lit k @ Star NonDigit # decimal_group) (k @ gap @ ip @ ''.'' @ fp @ post)
           = Some (map (\<lambda>c. [c]) k @ [gap, ip, ''.'', fp])"
proof -
  have "blocked NonDigit (ip @ ''.'' @ fp @ post)"
    using assms by (cases ip) auto
  then have "matchp (Star NonDigit # decimal_group) (gap @ ip @ ''.'' @ fp @ post)
               = Some [gap, ip, ''.'', fp]"
    using assms by (intro matchp_star_run matchp_decimal_group) (auto simp: list_all_iff)
  then show ?thesis by (simp add: matchp_lit)
qed

lemma re_search_here:
  "matchp (fst p @ snd p) s = Some caps \<Longrightarrow> re_search p s = Some (concat (drop (length (fst p)) caps))"
  by (cases s) auto

lemma re_search_skip:
  assumes "\<And>k. k < length pre \<Longrightarrow> matchp (fst p @ snd p) (drop k pre @ s) = None"
  shows "re_search p (pre @ s) = re_search p s"
  using assms
proof (induction pre)
  case Nil
  show ?case by simp
next
  case (Cons c pre)
  have "matchp (fst p @ snd p) (c # pre @ s) = None" using Cons.prems [of 0] by simp
  moreover have "re_search p (pre @ s) = re_search p s"
  proof (rule Cons.IH)
    fix k assume "k < length pre"
    then show "matchp (fst p @ snd p) (drop k pre @ s) = None"
      using Cons.prems [of "Suc k"] by simp
  qed
  ultimately show ?case by simp
qed

lemma contains_drop: "contains k (drop n s) \<Longrightarrow> k \<noteq> [] \<Longrightarrow> contains k s"
proof (induction s arbitrary: n)
  case Nil
  then show ?case by simp
next
  case (Cons c s)
  then show ?case by (cases n) auto
qed

lemma contains_append_right: "contains k s \<Longrightarrow> contains k (pre @ s)"
  by (induction pre) auto

lemma starts_with_append: "starts_with k (k @ rest)"
  by (induction k) auto

lemma contains_mid: "contains k (pre @ k @ rest)"
proof (rule contains_append_right)
  show "contains k (k @ rest)"
    using starts_with_append [of k rest] by (cases "k @ rest") auto
qed

lemma cad_no_straddle:
  assumes "\<not> contains ''CAD'' pre" and "pre \<noteq> []"
  shows "\<not> starts_with ''CAD'' (pre @ ''CAD'' @ rest)"
proof (cases pre)
  case Nil
  with assms show ?thesis by simp
next
  case (Cons a t)
  show ?thesis
  proof (cases t)
    case Nil
    with Cons show ?thesis by simp
  next
    case Cons1: (Cons b u)
    show ?thesis
    proof (cases u)
      case Nil
      with Cons Cons1 show ?thesis by simp
    next
      case Cons2: (Cons d v)
      with Cons Cons1 assms show ?thesis by auto
    qed
  qed
qed

lemma re_search_cad_first:
  assumes "\<not> contains ''CAD'' pre"
    and "list_all (\<lambda>c. \<not> is_digit c) gap"
    and "list_all is_digit ip" "ip \<noteq> []" "list_all is_digit fp" "fp \<noteq> []"
    and "blocked Digit post"
  shows "re_search cad_pattern (pre @ ''CAD'' @ gap @ ip @ ''.'' @ fp @ post) = Some (ip @ ''.'' @ fp)"
proof -
  let ?s = "''CAD'' @ gap @ ip @ ''.'' @ fp @ post"
  have here: "matchp (fst cad_pattern @ snd cad_pattern) ?s
                = Some (map (\<lambda>c. [c]) ''CAD'' @ [gap, ip, ''.'', fp])"
    using matchp_marker_decimal [OF assms(2-7), of "''CAD''"] by (simp add: cad_pattern_def)
  have skip: "matchp (fst cad_pattern @ snd cad_pattern) (drop k pre @ ?s) = None"
    if "k < length pre" for k
  proof (rule ccontr)
    assume "matchp (fst cad_pattern @ snd cad_pattern) (drop k pre @ ?s) \<noteq> None"
    then obtain caps where "matchp (lit ''CAD'' @ Star NonDigit # decimal_group) (drop k pre @ ?s) = Some caps"
      by (auto simp: cad_pattern_def)
    then have st: "starts_with ''CAD'' (drop k pre @ ?s)" by (rule matchp_lit_starts)
    have "\<not> contains ''CAD'' (drop k pre)" using assms(1) contains_drop by blast
    moreover have "drop k pre \<noteq> []" using that by simp
    ultimately have "\<not> starts_with ''CAD'' (drop k pre @ ''CAD'' @ (gap @ ip @ ''.'' @ fp @ post))"
      by (rule cad_no_straddle)
    with st show False by simp
  qed
  have "re_search cad_pattern (pre @ ?s) = re_search cad_pattern ?s"
    by (rule re_search_skip) (rule skip)
  also have "\<dots> = Some (ip @ ''.'' @ fp)"
    using re_search_here [OF here] by (simp add: cad_pattern_def lit_def)
  finally show ?thesis by simp
qed

lemma re_search_contains:
  "re_search (lit k @ ps, grp) s = Some g \<Longrightarrow> contains k s"
proof (induction s)
  case Nil
  then show ?case by (cases k) (auto simp: lit_def split: option.splits)
next
  case (Cons c s)
  then show ?case by (auto split: option.splits dest: matchp_lit_starts simp del: starts_with.simps)
qed

section \<open>Results of the fetcher and of the range endpoint\<close>

lemma scrape_xe_rate_result:
  "fst (scrape_xe_rate pf w rl d) = result_of pf d (response (w (request_count rl)) (url_for d))"
  by (simp add: scrape_xe_rate_def Let_def)

lemma scrape_xe_rate_count:
  "request_count (snd (scrape_xe_rate pf w rl d)) = Suc (request_count rl)"
  by (simp add: scrape_xe_rate_def wait_def Let_def)

lemma result_of_rate_status:
  "(rate (result_of pf d out) \<noteq> None) = (status (result_of pf d out) = Success)"
  by (cases out) (auto simp: result_of_def Let_def extract_rate_truthy)

lemma result_of_rate_plausible:
  "rate (result_of pf d out) = Some v \<Longrightarrow> plausible v"
  by (cases out) (auto simp: result_of_def Let_def split: if_splits dest: extract_rate_plausible)

lemma result_of_date: "date (result_of pf d out) = d"
  by (cases out) (auto simp: result_of_def Let_def)

lemma get_date_range_loop_ok:
  "end_date < MAXORDINAL \<Longrightarrow>
     get_date_range_loop f current end_date dates = Inr (dates @ map f [current..end_date])"
proof (induction f current end_date dates rule: get_date_range_loop.induct)
  case (1 f current end_date dates)
  show ?case
  proof (cases "current \<le> end_date")
    case False
    then show ?thesis by simp
  next
    case True
    with "1.prems" have nxt: "add_one_day current = Inr (current + 1)"
      by (simp add: add_one_day_def)
    have "get_date_range_loop f (current + 1) end_date (dates @ [f current])
            = Inr ((dates @ [f current]) @ map f [current + 1..end_date])"
      using "1.IH" [OF True nxt] "1.prems" by simp
    with True nxt show ?thesis
      by (subst get_date_range_loop.simps) (simp add: upto_rec1 [of current end_date])
  qed
qed

lemma get_date_range_loop_overflow:
  "current \<le> end_date \<Longrightarrow> MAXORDINAL \<le> end_date \<Longrightarrow>
     get_date_range_loop f current end_date dates = Inl OverflowError"
proof (induction f current end_date dates rule: get_date_range_loop.induct)
  case (1 f current end_date dates)
  show ?case
  proof (cases "current + 1 > MAXORDINAL")
    case True
    with "1.prems" show ?thesis
      by (subst get_date_range_loop.simps) (simp add: add_one_day_def)
  next
    case False
    then have nxt: "add_one_day current = Inr (current + 1)" by (simp add: add_one_day_def)
    have "get_date_range_loop f (current + 1) end_date (dates @ [f current]) = Inl OverflowError"
      using "1.IH" [OF "1.prems"(1) nxt] False "1.prems" by simp
    with "1.prems" nxt show ?thesis
      by (subst get_date_range_loop.simps) simp
  qed
qed

lemma scrape_each_results:
  "fst (scrape_each pf w rl ds acc) = acc @ map (fetch_at pf w) (enumerate (request_count rl) ds)"
proof (induction ds arbitrary: rl acc)
  case Nil
  show ?case by simp
next
  case (Cons d ds)
  obtain r rl' where step: "scrape_xe_rate pf w rl d = (r, rl')" by (cases "scrape_xe_rate pf w rl d")
  have r: "r = fetch_at pf w (request_count rl, d)"
    using scrape_xe_rate_result [of pf w rl d] step by (simp add: fetch_at_def)
  have c: "request_count rl' = Suc (request_count rl)"
    using scrape_xe_rate_count [of pf w rl d] step by simp
  show ?case using Cons.IH [of rl' "acc @ [r]"] step r c by simp
qed

lemma scrape_each_count:
  "request_count (snd (scrape_each pf w rl ds acc)) = request_count rl + length ds"
proof (induction ds arbitrary: rl acc)
  case Nil
  show ?case by simp
next
  case (Cons d ds)
  obtain r rl' where step: "scrape_xe_rate pf w rl d = (r, rl')" by (cases "scrape_xe_rate pf w rl d")
  have c: "request_count rl' = Suc (request_count rl)"
    using scrape_xe_rate_count [of pf w rl d] step by simp
  show ?case using Cons.IH [of rl' "acc @ [r]"] step c by simp
qed

lemma fetch_at_dates: "map date (map (fetch_at pf w) (enumerate n ds)) = ds"
  by (induction ds arbitrary: n) (auto simp: fetch_at_def result_of_date)

lemma scrape_range_valid:
  fixes strftime :: "datetime \<Rightarrow> string"
    and pf :: "string \<Rightarrow> pyfloat option" and w :: world and rl :: RateLimiter
    and a b :: datetime
  assumes "a \<le> b" "b - a \<le> 90" "b < MAXORDINAL"
  defines "results \<equiv> map (fetch_at pf w) (enumerate (request_count rl) (map strftime [a..b]))"
  shows "fst (scrape_range strftime pf w rl a b)
           = Ok_results results (length results) (length (filter (\<lambda>r. status r = Success) results))"
    and "request_count (snd (scrape_range strftime pf w rl a b)) = request_count rl + nat (b - a + 1)"
    and "length results = nat (b - a + 1)"
    and "map date results = map strftime [a..b]"
proof -
  have dr: "get_date_range strftime a b = Inr (map strftime [a..b])"
    using get_date_range_loop_ok [OF assms(3), of strftime a "[]"] by (simp add: get_date_range_def)
  obtain rs rl' where se: "scrape_each pf w rl (map strftime [a..b]) [] = (rs, rl')"
    by (cases "scrape_each pf w rl (map strftime [a..b]) []")
  have rs: "rs = results"
    using scrape_each_results [of pf w rl "map strftime [a..b]" "[]"] se by (simp add: results_def)
  have cnt: "request_count rl' = request_count rl + length [a..b]"
    using scrape_each_count [of pf w rl "map strftime [a..b]" "[]"] se by simp
  have len: "length [a..b] = nat (b - a + 1)" by simp
  show "fst (scrape_range strftime pf w rl a b)
           = Ok_results results (length results) (length (filter (\<lambda>r. status r = Success) results))"
    using assms(1,2) dr se rs by (simp add: scrape_range_def)
  show "request_count (snd (scrape_range strftime pf w rl a b)) = request_count rl + nat (b - a + 1)"
    using assms(1,2) dr se cnt len by (simp add: scrape_range_def)
  show "length results = nat (b - a + 1)" by (simp add: results_def)
  show "map date results = map strftime [a..b]"
    unfolding results_def by (rule fetch_at_dates)
qed

lemma range_request_fields:
  "dict_get [(''start_date'', JString s), (''end_date'', JString e)] ''start_date'' = JString s"
  "dict_get [(''start_date'', JString s), (''end_date'', JString e)] ''end_date'' = JString e"
  by (simp_all add: dict_get_def)

lemma scrape_rates_strings:
  assumes "dict_get items ''start_date'' = JString s" "dict_get items ''end_date'' = JString e"
    and "s \<noteq> []" "e \<noteq> []" "strptime s = Some a" "strptime e = Some b"
  shows "scrape_rates strptime strftime pf w rl (JObject items) = scrape_range strftime pf w rl a b"
  using assms by (simp add: scrape_rates_def)

lemma scrape_rates_valid:
  fixes strptime :: "string \<Rightarrow> datetime option" and strftime :: "datetime \<Rightarrow> string"
    and pf :: "string \<Rightarrow> pyfloat option" and w :: world and rl :: RateLimiter
    and a b :: datetime
  assumes "strptime s = Some a" "strptime e = Some b" "s \<noteq> []" "e \<noteq> []"
    and "a \<le> b" "b - a \<le> 90" "b < MAXORDINAL"
  defines "results \<equiv> map (fetch_at pf w) (enumerate (request_count rl) (map strftime [a..b]))"
  shows "fst (scrape_rates strptime strftime pf w rl (range_request s e))
           = Ok_results results (length results) (length (filter (\<lambda>r. status r = Success) results))"
    and "request_count (snd (scrape_rates strptime strftime pf w rl (range_request s e)))
           = request_count rl + nat (b - a + 1)"
    and "length results = nat (b - a + 1)"
    and "map date results = map strftime [a..b]"
proof -
  have eq: "scrape_rates strptime strftime pf w rl (range_request s e) = scrape_range strftime pf w rl a b"
    unfolding range_request_def
    by (rule scrape_rates_strings [OF range_request_fields assms(3,4,1,2)])
  show "fst (scrape_rates strptime strftime pf w rl (range_request s e))
           = Ok_results results (length results) (length (filter (\<lambda>r. status r = Success) results))"
    unfolding eq results_def by (rule scrape_range_valid(1) [OF assms(5-7)])
  show "request_count (snd (scrape_rates strptime strftime pf w rl (range_request s e)))
           = request_count rl + nat (b - a + 1)"
    unfolding eq by (rule scrape_range_valid(2) [OF assms(5-7)])
  show "length results = nat (b - a + 1)"
    unfolding results_def by (rule scrape_range_valid(3) [OF assms(5-7)])
  show "map date results = map strftime [a..b]"
    unfolding results_def by (rule scrape_range_valid(4) [OF assms(5-7)])
qed

lemma spec_row_no_marker: "list_all (\<lambda>cell. \<not> mentions_cad cell) row \<Longrightarrow> spec_row pf row = None"
proof -
  assume "list_all (\<lambda>cell. \<not> mentions_cad cell) row"
  then have dw: "dropWhile (\<lambda>t. \<not> mentions_cad t) row = []" by (induction row) auto
  show ?thesis unfolding spec_row_def dw by simp
qed

lemma spec_table_no_marker:
  "list_all (\<lambda>row. list_all (\<lambda>cell. \<not> mentions_cad cell) row) rs \<Longrightarrow> spec_table pf rs = None"
  by (induction rs) (auto simp: spec_table_def spec_row_no_marker)

lemma re_search_cad_129:
  assumes "\<not> contains ''CAD'' pre" and "blocked Digit post"
  shows "re_search cad_pattern (pre @ ''CAD 1.29'' @ post) = Some ''1.29''"
proof -
  have "re_search cad_pattern (pre @ ''CAD'' @ '' '' @ ''1'' @ ''.'' @ ''29'' @ post)
          = Some (''1'' @ ''.'' @ ''29'')"
    using assms by (intro re_search_cad_first) (auto simp: is_digit_def)
  then show ?thesis by simp
qed

lemma strptime_arg_cases:
  "(\<exists>d. strptime_arg strptime v = Inr d) \<or> strptime_arg strptime v = Inl ValueError
     \<or> strptime_arg strptime v = Inl TypeError"
  by (cases v) (auto split: option.splits)

lemma scrape_rates_invalid:
  assumes "\<not> valid_request strptime (dict_get items ''start_date'') (dict_get items ''end_date'')"
  shows "(\<exists>msg. scrape_rates strptime strftime pf w rl (JObject items) = (Bad_request msg, rl))
         \<or> scrape_rates strptime strftime pf w rl (JObject items) = (Unhandled TypeError, rl)"
proof -
  let ?s = "dict_get items ''start_date''" and ?e = "dict_get items ''end_date''"
  show ?thesis
  proof (cases "falsy ?s \<or> falsy ?e")
    case True
    then show ?thesis by (simp add: scrape_rates_def)
  next
    case nf: False
    consider (bad) e where "strptime_arg strptime ?s = Inl e" "e = ValueError \<or> e = TypeError"
      | (ok) a where "strptime_arg strptime ?s = Inr a"
      using strptime_arg_cases [of strptime ?s] by blast
    then show ?thesis
    proof cases
      case bad
      with nf show ?thesis by (auto simp: scrape_rates_def on_strptime_error_def)
    next
      case ok
      consider (bad2) e where "strptime_arg strptime ?e = Inl e" "e = ValueError \<or> e = TypeError"
        | (ok2) b where "strptime_arg strptime ?e = Inr b"
        using strptime_arg_cases [of strptime ?e] by blast
      then show ?thesis
      proof cases
        case bad2
        with nf ok show ?thesis by (auto simp: scrape_rates_def on_strptime_error_def)
      next
        case ok2
        from ok obtain x where x: "?s = JString x" "strptime x = Some a"
          by (cases ?s) (auto split: option.splits)
        from ok2 obtain y where y: "?e = JString y" "strptime y = Some b"
          by (cases ?e) (auto split: option.splits)
        from nf x y have ne: "x \<noteq> []" "y \<noteq> []" by auto
        with assms x y have "b < a \<or> 90 < b - a" by (auto simp: valid_request_def)
        then have "\<exists>msg. scrape_range strftime pf w rl a b = (Bad_request msg, rl)"
          by (auto simp: scrape_range_def)
        with nf ok ok2 show ?thesis by (simp add: scrape_rates_def)
      qed
    qed
  qed
qed

lemma scrape_rates_invalid_strings:
  assumes "\<not> valid_request strptime (dict_get items ''start_date'') (dict_get items ''end_date'')"
    and "dict_get items ''start_date'' = JNull \<or> (\<exists>x. dict_get items ''start_date'' = JString x)"
    and "dict_get items ''end_date'' = JNull \<or> (\<exists>y. dict_get items ''end_date'' = JString y)"
  shows "\<exists>msg. scrape_rates strptime strftime pf w rl (JObject items) = (Bad_request msg, rl)"
proof (cases "falsy (dict_get items ''start_date'') \<or> falsy (dict_get items ''end_date'')")
  case True
  then show ?thesis by (simp add: scrape_rates_def)
next
  case False
  with assms(2,3) obtain x y where xy: "dict_get items ''start_date'' = JString x"
    "dict_get items ''end_date'' = JString y" by auto
  from False xy have ne: "x \<noteq> []" "y \<noteq> []" by auto
  show ?thesis
  proof (cases "strptime x")
    case None
    with False xy show ?thesis by (simp add: scrape_rates_def on_strptime_error_def)
  next
    case a: (Some a)
    show ?thesis
    proof (cases "strptime y")
      case None
      with False xy a show ?thesis by (simp add: scrape_rates_def on_strptime_error_def)
    next
      case b: (Some b)
      with assms(1) xy ne a have "b < a \<or> 90 < b - a" by (auto simp: valid_request_def)
      with False xy a b show ?thesis by (auto simp: scrape_rates_def scrape_range_def)
    qed
  qed
qed

text \<open>The endpoint on the four days from 2024-02-27 to 2024-03-01, every page holding a rate.\<close>

lemma sample_page_rate: "extract_rate sample_float sample_page = Some (Finite (13612 / 10000))"
proof -
  have "table_method sample_float sample_page = Some (Finite (13612 / 10000))"
    by (simp add: table_method_def sample_page_def is_marker_def sample_float_def remove_commas_def)
  then show ?thesis by (simp add: extract_rate_def)
qed

lemma scrape_rates_sample_range:
  "\<exists>results rl'.
     scrape_rates sample_strptime sample_strftime sample_float (sample_world (Page sample_page))
       (rate_limiter t0) (range_request ''2024-02-27'' ''2024-03-01'') = (Ok_results results 4 4, rl')
     \<and> map date results = [''2024-02-27'', ''2024-02-28'', ''2024-02-29'', ''2024-03-01'']
     \<and> request_count rl' = 4"
proof -
  let ?call = "scrape_rates sample_strptime sample_strftime sample_float
       (sample_world (Page sample_page)) (rate_limiter t0) (range_request ''2024-02-27'' ''2024-03-01'')"
  define results where "results = map (fetch_at sample_float (sample_world (Page sample_page)))
       (enumerate (request_count (rate_limiter t0)) (map sample_strftime [738943..738946]))"
  have s: "sample_strptime ''2024-02-27'' = Some 738943" "sample_strptime ''2024-03-01'' = Some 738946"
    by (simp_all add: sample_strptime_def)
  have days: "map sample_strftime [738943..738946]
                = [''2024-02-27'', ''2024-02-28'', ''2024-02-29'', ''2024-03-01'']"
    by (simp add: sample_strftime_def)
  note v = scrape_rates_valid [where strptime = sample_strptime and strftime = sample_strftime
             and pf = sample_float and w = "sample_world (Page sample_page)" and rl = "rate_limiter t0",
             OF s, folded results_def]
  have pre: "''2024-02-27'' \<noteq> []" "''2024-03-01'' \<noteq> []" "(738943::int) \<le> 738946"
    "(738946::int) - 738943 \<le> 90" "738946 < MAXORDINAL"
    by (simp_all add: MAXORDINAL_def)
  have ok: "status (fetch_at sample_float (sample_world (Page sample_page)) nd) = Success" for nd
    by (simp add: fetch_at_def result_of_def sample_world_def sample_env_def sample_page_rate)
  have len: "length results = 4" using v(3) [OF pre] by simp
  have "filter (\<lambda>r. status r = Success) results = results"
    unfolding results_def by (simp add: ok)
  with len v(1) [OF pre] have "fst ?call = Ok_results results 4 4" by simp
  moreover have "request_count (snd ?call) = 4" using v(2) [OF pre] by (simp add: rate_limiter_def)
  moreover have "map date results = [''2024-02-27'', ''2024-02-28'', ''2024-02-29'', ''2024-03-01'']"
    using v(4) [OF pre] days by simp
  ultimately show ?thesis by (metis prod.collapse)
qed

lemma table_none:
  "list_all (\<lambda>row. list_all (\<lambda>cell. \<not> mentions_cad cell) row) rs \<Longrightarrow>
     table_method pf \<lparr>rows = rs, text_content = t\<rparr> = None"
  by (simp add: table_method_def scan_rows_eq spec_table_no_marker)

lemma fallback_only:
  "list_all (\<lambda>row. list_all (\<lambda>cell. \<not> mentions_cad cell) row) rs \<Longrightarrow>
     extract_rate pf \<lparr>rows = rs, text_content = t\<rparr> = spec_fallback pf t"
  by (simp add: extract_rate_eq table_none)

lemmas pattern_eval = cad_pattern_def name_pattern_def lit_def decimal_group_def is_digit_def

section \<open>The rate limiter's delay and the time between two returns\<close>

lemma wait_delay: "fst (wait env rl) = choose_delay env (request_count rl + 1)"
  by (simp add: wait_def Let_def)

lemma wait_state:
  "request_count (snd (wait env rl)) = request_count rl + 1"
  "last_request_time (snd (wait env rl)) = time_after env"
  by (simp_all add: wait_def Let_def)

lemma burst_delay_bounds:
  assumes "0 \<le> uniform env 0 5" "uniform env 0 5 \<le> 5"
    and "\<forall>x y. x \<le> y \<longrightarrow> rounded env x \<le> rounded env y"
    and "rounded env 20 = 20" "rounded env 25 = 25"
  shows "20 \<le> rounded env (20 + uniform env 0 5)" and "rounded env (20 + uniform env 0 5) \<le> 25"
proof -
  note mono = assms(3) [rule_format]
  have "rounded env 20 \<le> rounded env (20 + uniform env 0 5)"
    by (rule mono) (simp add: assms(1))
  then show "20 \<le> rounded env (20 + uniform env 0 5)" by (simp only: assms(4))
  have "rounded env (20 + uniform env 0 5) \<le> rounded env 25"
    by (rule mono) (use assms(2) in simp)
  then show "rounded env (20 + uniform env 0 5) \<le> 25" by (simp only: assms(5))
qed

lemma wait_gap:
  assumes exact_elapsed: "rounded env (time_before env - last_request_time rl)
                            = time_before env - last_request_time rl"
    and exact_sleep: "time_before env - last_request_time rl < delay \<longrightarrow>
           rounded env (delay - (time_before env - last_request_time rl))
             = delay - (time_before env - last_request_time rl)"
    and slept: "case sleep_time env rl delay of
                  Some s \<Rightarrow> time_before env + s \<le> time_after env
                | None \<Rightarrow> time_before env \<le> time_after env"
  shows "delay \<le> time_after env - last_request_time rl"
proof (cases "time_before env - last_request_time rl < delay")
  case True
  with exact_elapsed exact_sleep
  have "sleep_time env rl delay = Some (delay - (time_before env - last_request_time rl))"
    by (simp add: sleep_time_def)
  with slept show ?thesis by simp
next
  case False
  with exact_elapsed have "sleep_time env rl delay = None" by (simp add: sleep_time_def)
  with slept False show ?thesis by simp
qed

section \<open>The claims\<close>

text \<open>
  C3. In the structured scan the rows are visited in document order. In a row with a cell
  whose text contains "CAD" or "Canadian Dollar", the cells after it are parsed from the left,
  commas removed, and the first value in the plausible range is accepted; no later row is
  scanned after that. So the scan returns the value of \<open>spec_table\<close>; it returns the value of
  the cell \<open>c\<close> when no earlier row has a value, no cell before \<open>m\<close> mentions the currency and
  no cell between \<open>m\<close> and \<open>c\<close> is accepted, whatever rows come after. A first row with the
  cell "CAD", "Canadian Dollar" or "USD/CAD rate" followed by the cell "1.3612" yields the
  float that "1.3612" denotes, and the row "CAD", "1,.25", "1.5" yields the float that "1.25"
  denotes: the comma is removed before the cell is parsed.
\<close>

theorem structured_scan_first_plausible:
  "table_method pf doc = spec_table pf (rows doc)
   \<and> (spec_table pf before = None \<and> list_all (\<lambda>t. \<not> mentions_cad t) pre \<and> mentions_cad m
        \<and> list_all (\<lambda>x. accept pf (without_commas x) = None) mid
        \<and> pf (without_commas c) = Some r \<and> plausible r
      \<longrightarrow> table_method pf \<lparr>rows = before @ (pre @ m # mid @ c # post) # after, text_content = t\<rparr>
            = Some r)
   \<and> (pf ''1.3612'' = Some r \<and> plausible r
      \<longrightarrow> table_method pf \<lparr>rows = [''CAD'', ''1.3612''] # after, text_content = t\<rparr> = Some r
          \<and> table_method pf \<lparr>rows = [''Canadian Dollar'', ''1.3612''] # after, text_content = t\<rparr>
              = Some r
          \<and> table_method pf \<lparr>rows = [''USD/CAD rate'', ''1.3612''] # after, text_content = t\<rparr>
              = Some r)
   \<and> (pf ''1.25'' = Some r \<and> plausible r
      \<longrightarrow> table_method pf \<lparr>rows = [''CAD'', ''1,.25'', ''1.5''] # after, text_content = t\<rparr> = Some r)"
proof (intro conjI impI)
  show "table_method pf doc = spec_table pf (rows doc)"
    by (simp add: table_method_def scan_rows_eq)
next
  assume h: "spec_table pf before = None \<and> list_all (\<lambda>t. \<not> mentions_cad t) pre \<and> mentions_cad m
        \<and> list_all (\<lambda>x. accept pf (without_commas x) = None) mid
        \<and> pf (without_commas c) = Some r \<and> plausible r"
  then have "accept pf (without_commas c) = Some r" by (simp add: accept_eq)
  with h have "spec_row pf (pre @ m # mid @ c # post) = Some r" by (intro spec_row_at) auto
  with h have "spec_table pf (before @ (pre @ m # mid @ c # post) # after) = Some r"
    by (intro spec_table_at) auto
  then show "table_method pf \<lparr>rows = before @ (pre @ m # mid @ c # post) # after, text_content = t\<rparr>
            = Some r"
    by (simp add: table_method_def scan_rows_eq)
next
  have first_row: "table_method pf \<lparr>rows = [m, c] # after, text_content = t\<rparr> = Some r"
    if "mentions_cad m" and "pf (without_commas c) = Some r" and "plausible r" for m c
  proof -
    from that have "accept pf (without_commas c) = Some r" by (simp add: accept_eq)
    with that have "spec_row pf ([] @ m # [] @ c # []) = Some r"
      by (intro spec_row_at) auto
    then have "spec_table pf ([] @ [m, c] # after) = Some r"
      by (intro spec_table_at) (auto simp: spec_table_def)
    then show ?thesis by (simp add: table_method_def scan_rows_eq)
  qed
  assume h: "pf ''1.3612'' = Some r \<and> plausible r"
  then have c: "pf (without_commas ''1.3612'') = Some r" by (simp add: without_commas_def)
  show "table_method pf \<lparr>rows = [''CAD'', ''1.3612''] # after, text_content = t\<rparr> = Some r"
    using c h by (intro first_row) (simp_all add: mentions_cad_def)
  show "table_method pf \<lparr>rows = [''Canadian Dollar'', ''1.3612''] # after, text_content = t\<rparr> = Some r"
    using c h by (intro first_row) (simp_all add: mentions_cad_def)
  show "table_method pf \<lparr>rows = [''USD/CAD rate'', ''1.3612''] # after, text_content = t\<rparr> = Some r"
    using c h by (intro first_row) (simp_all add: mentions_cad_def)
next
  assume h: "pf ''1.25'' = Some r \<and> plausible r"
  then have "accept pf (without_commas ''1,.25'') = Some r"
    by (simp add: accept_eq without_commas_def)
  moreover have "mentions_cad ''CAD''" by (simp add: mentions_cad_def)
  ultimately have "spec_row pf ([] @ ''CAD'' # [] @ ''1,.25'' # [''1.5'']) = Some r"
    by (intro spec_row_at) auto
  then have "spec_table pf ([] @ [''CAD'', ''1,.25'', ''1.5''] # after) = Some r"
    by (intro spec_table_at) (auto simp: spec_table_def)
  then show "table_method pf \<lparr>rows = [''CAD'', ''1,.25'', ''1.5''] # after, text_content = t\<rparr> = Some r"
    by (simp add: table_method_def scan_rows_eq)
qed

theorem structured_scan_first_plausible_witness:
  "spec_table sample_float [[''USD'', ''US Dollar'', ''1'']] = None
   \<and> mentions_cad ''CAD''
   \<and> sample_float (without_commas ''1.3612'') = Some (Finite (13612 / 10000))
   \<and> plausible (Finite (13612 / 10000))
   \<and> table_method sample_float
        \<lparr>rows = [[''USD'', ''US Dollar'', ''1'']]
                  @ ([] @ ''CAD'' # [''Canadian Dollar''] @ ''1.3612'' # [''0.7346'']) # [],
         text_content = []\<rparr>
       = Some (Finite (13612 / 10000))
   \<and> sample_float ''1.3612'' = Some (Finite (13612 / 10000))
   \<and> table_method sample_float \<lparr>rows = [''CAD'', ''1.3612''] # [[''CAD'', ''1.29'']], text_content = []\<rparr>
       = Some (Finite (13612 / 10000))
   \<and> table_method sample_float
        \<lparr>rows = [''Canadian Dollar'', ''1.3612''] # [[''CAD'', ''1.29'']], text_content = []\<rparr>
       = Some (Finite (13612 / 10000))
   \<and> sample_float ''1.25'' = Some (Finite (5 / 4)) \<and> plausible (Finite (5 / 4))
   \<and> table_method sample_float \<lparr>rows = [''CAD'', ''1,.25'', ''1.5''] # [], text_content = []\<rparr>
       = Some (Finite (5 / 4))"
proof -
  have a: "list_all (\<lambda>x. accept sample_float (without_commas x) = None) [''Canadian Dollar'']"
    by (simp add: accept_def sample_float_def without_commas_def)
  have b: "spec_table sample_float [[''USD'', ''US Dollar'', ''1'']] = None"
    by (simp add: spec_table_def spec_row_def mentions_cad_def)
  have c: "sample_float (without_commas ''1.3612'') = Some (Finite (13612 / 10000))"
    by (simp add: sample_float_def without_commas_def)
  have d: "mentions_cad ''CAD''" by (simp add: mentions_cad_def)
  have e: "sample_float ''1.3612'' = Some (Finite (13612 / 10000))"
    by (simp add: sample_float_def)
  have f: "plausible (Finite (13612 / 10000))" by simp
  have g: "list_all (\<lambda>t. \<not> mentions_cad t) []" by simp
  have h: "sample_float ''1.25'' = Some (Finite (5 / 4))" by (simp add: sample_float_def)
  have k: "plausible (Finite (5 / 4))" by simp
  note first = structured_scan_first_plausible
      [where pf = sample_float and before = "[[''USD'', ''US Dollar'', ''1'']]" and pre = "[]"
         and m = "''CAD''" and mid = "[''Canadian Dollar'']" and c = "''1.3612''"
         and r = "Finite (13612 / 10000)" and post = "[''0.7346'']" and after = "[]" and t = "[]"]
  note second = structured_scan_first_plausible
      [where pf = sample_float and r = "Finite (13612 / 10000)" and after = "[[''CAD'', ''1.29'']]"
         and t = "[]"]
  note third = structured_scan_first_plausible
      [where pf = sample_float and r = "Finite (5 / 4)" and after = "[]" and t = "[]"]
  from first a b c d f g
  have one: "table_method sample_float
        \<lparr>rows = [[''USD'', ''US Dollar'', ''1'']]
                  @ ([] @ ''CAD'' # [''Canadian Dollar''] @ ''1.3612'' # [''0.7346'']) # [],
         text_content = []\<rparr>
       = Some (Finite (13612 / 10000))"
    by blast
  from second e f
  have two: "table_method sample_float \<lparr>rows = [''CAD'', ''1.3612''] # [[''CAD'', ''1.29'']], text_content = []\<rparr>
       = Some (Finite (13612 / 10000))"
    "table_method sample_float
        \<lparr>rows = [''Canadian Dollar'', ''1.3612''] # [[''CAD'', ''1.29'']], text_content = []\<rparr>
       = Some (Finite (13612 / 10000))"
    by blast+
  from third h k
  have three: "table_method sample_float \<lparr>rows = [''CAD'', ''1,.25'', ''1.5''] # [], text_content = []\<rparr>
       = Some (Finite (5 / 4))"
    by blast
  from b c d e f h k one two three show ?thesis by blast
qed

text \<open>
  C2. The extractor accepts a parsed value only when it lies in the open interval (0.5, 2.5).
  Whatever the table scan, the text scan or the whole extractor returns is a finite number
  strictly between 0.5 and 2.5. A cell whose value is at most 0.5 or at least 2.5 is passed
  over by the loop over the cells, and a pattern whose match has such a value is passed over
  by the loop over the patterns. A page whose only candidate is 150.0 beside the "CAD" marker,
  in the table and in the text, has no rate.
\<close>

theorem rate_extractor_range:
  "(table_method pf doc = Some r \<longrightarrow> (\<exists>q. r = Finite q \<and> 1 / 2 < q \<and> q < 5 / 2))
   \<and> (text_method pf doc None = Some r \<longrightarrow> (\<exists>q. r = Finite q \<and> 1 / 2 < q \<and> q < 5 / 2))
   \<and> (extract_rate pf doc = Some r \<longrightarrow> (\<exists>q. r = Finite q \<and> 1 / 2 < q \<and> q < 5 / 2))
   \<and> (pf (remove_commas cell) = Some (Finite v) \<and> (v \<le> 1 / 2 \<or> 5 / 2 \<le> v)
        \<longrightarrow> scan_following pf (cell # cells) cad_rate = scan_following pf cells cad_rate)
   \<and> (re_search p text = Some g \<and> pf g = Some (Finite v) \<and> (v \<le> 1 / 2 \<or> 5 / 2 \<le> v)
        \<longrightarrow> try_patterns pf (p # ps) text cad_rate = try_patterns pf ps text cad_rate)
   \<and> (pf ''150.0'' = Some (Finite 150)
        \<longrightarrow> extract_rate pf \<lparr>rows = [[''CAD'', ''150.0'']], text_content = ''CAD150.0''\<rparr> = None)"
proof (intro conjI impI)
  assume "table_method pf doc = Some r"
  then have "plausible r" by (simp add: table_method_def scan_rows_eq spec_table_plausible)
  then show "\<exists>q. r = Finite q \<and> 1 / 2 < q \<and> q < 5 / 2" by (rule plausible_finite)
next
  assume "text_method pf doc None = Some r"
  then have "plausible r" by (simp add: text_method_eq spec_fallback_plausible)
  then show "\<exists>q. r = Finite q \<and> 1 / 2 < q \<and> q < 5 / 2" by (rule plausible_finite)
next
  assume "extract_rate pf doc = Some r"
  then have "plausible r" by (rule extract_rate_plausible)
  then show "\<exists>q. r = Finite q \<and> 1 / 2 < q \<and> q < 5 / 2" by (rule plausible_finite)
next
  assume "pf (remove_commas cell) = Some (Finite v) \<and> (v \<le> 1 / 2 \<or> 5 / 2 \<le> v)"
  then show "scan_following pf (cell # cells) cad_rate = scan_following pf cells cad_rate"
    by auto
next
  assume "re_search p text = Some g \<and> pf g = Some (Finite v) \<and> (v \<le> 1 / 2 \<or> 5 / 2 \<le> v)"
  then show "try_patterns pf (p # ps) text cad_rate = try_patterns pf ps text cad_rate"
    by auto
next
  assume h: "pf ''150.0'' = Some (Finite 150)"
  have tab: "spec_table pf [[''CAD'', ''150.0'']] = None"
    using h by (simp add: spec_table_def spec_row_def mentions_cad_def accept_def without_commas_def)
  have "re_search cad_pattern ''CAD150.0'' = Some ''150.0''"
    by (simp add: cad_pattern_def lit_def decimal_group_def is_digit_def)
  then have one: "pattern_value pf cad_pattern ''CAD150.0'' = None"
    using h by (simp add: pattern_value_def accept_def)
  have two: "pattern_value pf name_pattern ''CAD150.0'' = None"
    by (simp add: pattern_value_def name_pattern_def lit_def decimal_group_def)
  show "extract_rate pf \<lparr>rows = [[''CAD'', ''150.0'']], text_content = ''CAD150.0''\<rparr> = None"
    using tab one two by (simp add: extract_rate_eq table_method_def scan_rows_eq spec_fallback_def)
qed

theorem rate_extractor_range_witness:
  "extract_rate sample_float sample_page = Some (Finite (13612 / 10000))
   \<and> table_method sample_float sample_page = Some (Finite (13612 / 10000))
   \<and> text_method sample_float \<lparr>rows = [], text_content = ''CAD 1.29''\<rparr> None = Some (Finite (129 / 100))
   \<and> (\<exists>q. Finite (13612 / 10000) = Finite q \<and> 1 / 2 < q \<and> q < 5 / 2)
   \<and> (\<exists>q. Finite (129 / 100) = Finite q \<and> 1 / 2 < q \<and> q < 5 / 2)
   \<and> sample_float (remove_commas ''150.0'') = Some (Finite 150) \<and> ((150::rat) \<le> 1 / 2 \<or> 5 / 2 \<le> (150::rat))
   \<and> scan_following sample_float [''150.0'', ''1.29''] None = scan_following sample_float [''1.29''] None
   \<and> re_search cad_pattern ''CAD150.0'' = Some ''150.0'' \<and> sample_float ''150.0'' = Some (Finite 150)
   \<and> try_patterns sample_float [cad_pattern, name_pattern] ''CAD150.0'' None
       = try_patterns sample_float [name_pattern] ''CAD150.0'' None
   \<and> extract_rate sample_float \<lparr>rows = [[''CAD'', ''150.0'']], text_content = ''CAD150.0''\<rparr> = None"
proof -
  have tab: "table_method sample_float sample_page = Some (Finite (13612 / 10000))"
    by (simp add: table_method_def sample_page_def is_marker_def sample_float_def remove_commas_def)
  then have ext: "extract_rate sample_float sample_page = Some (Finite (13612 / 10000))"
    by (simp add: extract_rate_def)
  have fb: "text_method sample_float \<lparr>rows = [], text_content = ''CAD 1.29''\<rparr> None = Some (Finite (129 / 100))"
    by (simp add: text_method_def patterns_def cad_pattern_def lit_def decimal_group_def is_digit_def
          sample_float_def)
  have big: "sample_float (remove_commas ''150.0'') = Some (Finite 150)"
    "sample_float ''150.0'' = Some (Finite 150)"
    by (simp_all add: sample_float_def remove_commas_def)
  have num: "(150::rat) \<le> 1 / 2 \<or> 5 / 2 \<le> (150::rat)" by simp
  have re: "re_search cad_pattern ''CAD150.0'' = Some ''150.0''"
    by (simp add: cad_pattern_def lit_def decimal_group_def is_digit_def)
  note t1 = rate_extractor_range [where pf = sample_float and doc = sample_page
              and r = "Finite (13612 / 10000)"]
  note t2 = rate_extractor_range [where pf = sample_float
              and doc = "\<lparr>rows = [], text_content = ''CAD 1.29''\<rparr>" and r = "Finite (129 / 100)"]
  note t3 = rate_extractor_range [where pf = sample_float and cell = "''150.0''" and v = 150
              and cells = "[''1.29'']" and cad_rate = None and p = cad_pattern
              and ?text = "''CAD150.0''" and g = "''150.0''" and ps = "[name_pattern]"]
  from t1 ext have q1: "\<exists>q. Finite (13612 / 10000) = Finite q \<and> 1 / 2 < q \<and> q < 5 / 2" by blast
  from t2 fb have q2: "\<exists>q. Finite (129 / 100) = Finite q \<and> 1 / 2 < q \<and> q < 5 / 2" by blast
  from t3 big num
  have s1: "scan_following sample_float [''150.0'', ''1.29''] None = scan_following sample_float [''1.29''] None"
    by blast
  from t3 big num re
  have s2: "try_patterns sample_float [cad_pattern, name_pattern] ''CAD150.0'' None
       = try_patterns sample_float [name_pattern] ''CAD150.0'' None"
    by blast
  from t3 big
  have s3: "extract_rate sample_float \<lparr>rows = [[''CAD'', ''150.0'']], text_content = ''CAD150.0''\<rparr> = None"
    by blast
  from tab ext fb q1 q2 big num s1 s2 s3 re show ?thesis by blast
qed

text \<open>
  C4. As stated the claim fails: the text "CAD 150.0 then CAD 1.29" contains "CAD 1.29" and
  there is no table row, yet the extractor returns no rate, since the first match of the code
  pattern is 150.0 and the name pattern does not match.
\<close>

theorem cad_129_counterexample:
  "contains ''CAD 1.29'' ''CAD 150.0 then CAD 1.29''
   \<and> sample_float ''1.29'' = Some (Finite (129 / 100))
   \<and> extract_rate sample_float \<lparr>rows = [], text_content = ''CAD 150.0 then CAD 1.29''\<rparr> = None"
  by (simp add: extract_rate_def table_method_def text_method_def patterns_def pattern_eval
        sample_float_def)

text \<open>
  C4, amended. The pattern fallback runs only when the structured scan found no value: the
  extractor returns the table's value when there is one, and otherwise the fallback's, which
  is absent unless the text contains "CAD" and is then the accepted first match of the code
  pattern or, failing that, of the name pattern. With no row that mentions the currency: a
  text that reads "CAD 1.29" after a part \<open>pre\<close> without "CAD" and before a part \<open>post\<close> that
  does not go on with a digit yields the float that "1.29" denotes; the code pattern comes
  first ("Canadian Dollar 1.31 or CAD 1.29" yields 1.29); the name pattern is used when the
  first match of the code pattern is rejected ("Canadian Dollar 1.29 (CAD 150.0)" yields
  1.29); and a text without "CAD" yields nothing ("Canadian Dollar 1.29").
\<close>

theorem pattern_fallback_order:
  "extract_rate pf doc =
     (case table_method pf doc of
        Some r \<Rightarrow> Some r
      | None \<Rightarrow> spec_fallback pf (text_content doc))
   \<and> (list_all (\<lambda>row. list_all (\<lambda>cell. \<not> mentions_cad cell) row) rs
        \<and> \<not> contains ''CAD'' pre \<and> blocked Digit post
        \<and> pf ''1.29'' = Some r \<and> plausible r
      \<longrightarrow> extract_rate pf \<lparr>rows = rs, text_content = pre @ ''CAD 1.29'' @ post\<rparr> = Some r)
   \<and> (list_all (\<lambda>row. list_all (\<lambda>cell. \<not> mentions_cad cell) row) rs
        \<and> pf ''1.29'' = Some r \<and> plausible r
      \<longrightarrow> extract_rate pf \<lparr>rows = rs, text_content = ''Canadian Dollar 1.31 or CAD 1.29''\<rparr> = Some r)
   \<and> (list_all (\<lambda>row. list_all (\<lambda>cell. \<not> mentions_cad cell) row) rs
        \<and> pf ''150.0'' = Some (Finite 150) \<and> pf ''1.29'' = Some r \<and> plausible r
      \<longrightarrow> extract_rate pf \<lparr>rows = rs, text_content = ''Canadian Dollar 1.29 (CAD 150.0)''\<rparr> = Some r)
   \<and> (list_all (\<lambda>row. list_all (\<lambda>cell. \<not> mentions_cad cell) row) rs
      \<longrightarrow> extract_rate pf \<lparr>rows = rs, text_content = ''Canadian Dollar 1.29''\<rparr> = None)"
proof (intro conjI impI)
  show "extract_rate pf doc =
     (case table_method pf doc of
        Some r \<Rightarrow> Some r
      | None \<Rightarrow> spec_fallback pf (text_content doc))"
    by (rule extract_rate_eq)
next
  let ?text = "pre @ ''CAD 1.29'' @ post"
  assume h: "list_all (\<lambda>row. list_all (\<lambda>cell. \<not> mentions_cad cell) row) rs
        \<and> \<not> contains ''CAD'' pre \<and> blocked Digit post
        \<and> pf ''1.29'' = Some r \<and> plausible r"
  have "contains ''CAD'' (pre @ ''CAD'' @ ('' 1.29'' @ post))" by (rule contains_mid)
  then have code: "contains ''CAD'' ?text" by simp
  have "re_search cad_pattern ?text = Some ''1.29''" using h by (intro re_search_cad_129) auto
  with h have "pattern_value pf cad_pattern ?text = Some r"
    by (simp add: pattern_value_def accept_eq)
  with code have "spec_fallback pf ?text = Some r" by (simp add: spec_fallback_def)
  with h show "extract_rate pf \<lparr>rows = rs, text_content = ?text\<rparr> = Some r"
    by (simp add: fallback_only)
next
  assume h: "list_all (\<lambda>row. list_all (\<lambda>cell. \<not> mentions_cad cell) row) rs
        \<and> pf ''1.29'' = Some r \<and> plausible r"
  have "re_search cad_pattern ''Canadian Dollar 1.31 or CAD 1.29'' = Some ''1.29''"
    by (simp add: pattern_eval)
  with h have "spec_fallback pf ''Canadian Dollar 1.31 or CAD 1.29'' = Some r"
    by (simp add: spec_fallback_def pattern_value_def accept_eq)
  with h show "extract_rate pf \<lparr>rows = rs, text_content = ''Canadian Dollar 1.31 or CAD 1.29''\<rparr> = Some r"
    by (simp add: fallback_only)
next
  assume h: "list_all (\<lambda>row. list_all (\<lambda>cell. \<not> mentions_cad cell) row) rs
        \<and> pf ''150.0'' = Some (Finite 150) \<and> pf ''1.29'' = Some r \<and> plausible r"
  have one: "re_search cad_pattern ''Canadian Dollar 1.29 (CAD 150.0)'' = Some ''150.0''"
    by (simp add: pattern_eval)
  have two: "re_search name_pattern ''Canadian Dollar 1.29 (CAD 150.0)'' = Some ''1.29''"
    by (simp add: pattern_eval)
  from h have "accept pf ''150.0'' = None" "accept pf ''1.29'' = Some r"
    by (simp_all add: accept_def)
  with one two have "spec_fallback pf ''Canadian Dollar 1.29 (CAD 150.0)'' = Some r"
    by (simp add: spec_fallback_def pattern_value_def)
  with h show "extract_rate pf \<lparr>rows = rs, text_content = ''Canadian Dollar 1.29 (CAD 150.0)''\<rparr> = Some r"
    by (simp add: fallback_only)
next
  assume h: "list_all (\<lambda>row. list_all (\<lambda>cell. \<not> mentions_cad cell) row) rs"
  have "spec_fallback pf ''Canadian Dollar 1.29'' = None" by (simp add: spec_fallback_def)
  with h show "extract_rate pf \<lparr>rows = rs, text_content = ''Canadian Dollar 1.29''\<rparr> = None"
    by (simp add: fallback_only)
qed

theorem pattern_fallback_order_witness:
  "list_all (\<lambda>row. list_all (\<lambda>cell. \<not> mentions_cad cell) row) [[''Currency'', ''Rate'']]
   \<and> \<not> contains ''CAD'' ''1 USD = ''
   \<and> blocked Digit '' as of today''
   \<and> sample_float ''1.29'' = Some (Finite (129 / 100))
   \<and> plausible (Finite (129 / 100))
   \<and> sample_float ''150.0'' = Some (Finite 150)
   \<and> extract_rate sample_float
        \<lparr>rows = [[''Currency'', ''Rate'']], text_content = ''1 USD = '' @ ''CAD 1.29'' @ '' as of today''\<rparr>
       = Some (Finite (129 / 100))
   \<and> extract_rate sample_float
        \<lparr>rows = [[''Currency'', ''Rate'']], text_content = ''Canadian Dollar 1.31 or CAD 1.29''\<rparr>
       = Some (Finite (129 / 100))
   \<and> extract_rate sample_float
        \<lparr>rows = [[''Currency'', ''Rate'']], text_content = ''Canadian Dollar 1.29 (CAD 150.0)''\<rparr>
       = Some (Finite (129 / 100))
   \<and> extract_rate sample_float
        \<lparr>rows = [[''Currency'', ''Rate'']], text_content = ''Canadian Dollar 1.29''\<rparr> = None"
proof -
  have a: "list_all (\<lambda>row. list_all (\<lambda>cell. \<not> mentions_cad cell) row) [[''Currency'', ''Rate'']]"
    by (simp add: mentions_cad_def)
  have b: "\<not> contains ''CAD'' ''1 USD = ''" by simp
  have c: "blocked Digit '' as of today''" by (simp add: is_digit_def)
  have d: "sample_float ''1.29'' = Some (Finite (129 / 100))" by (simp add: sample_float_def)
  have e: "plausible (Finite (129 / 100))" by simp
  have f: "sample_float ''150.0'' = Some (Finite 150)" by (simp add: sample_float_def)
  note t = pattern_fallback_order
         [where pf = sample_float and rs = "[[''Currency'', ''Rate'']]" and pre = "''1 USD = ''"
            and post = "'' as of today''" and r = "Finite (129 / 100)"]
  from t a b c d e have one: "extract_rate sample_float
        \<lparr>rows = [[''Currency'', ''Rate'']], text_content = ''1 USD = '' @ ''CAD 1.29'' @ '' as of today''\<rparr>
       = Some (Finite (129 / 100))"
    by blast
  from t a d e have two: "extract_rate sample_float
        \<lparr>rows = [[''Currency'', ''Rate'']], text_content = ''Canadian Dollar 1.31 or CAD 1.29''\<rparr>
       = Some (Finite (129 / 100))"
    by blast
  from t a d e f have three: "extract_rate sample_float
        \<lparr>rows = [[''Currency'', ''Rate'']], text_content = ''Canadian Dollar 1.29 (CAD 150.0)''\<rparr>
       = Some (Finite (129 / 100))"
    by blast
  from t a have four: "extract_rate sample_float
        \<lparr>rows = [[''Currency'', ''Rate'']], text_content = ''Canadian Dollar 1.29''\<rparr> = None"
    by blast
  from a b c d e f one two three four show ?thesis by blast
qed

text \<open>
  C10. As stated the claim fails: in "CAD 9 7.5 CAD 1.5" the first decimal after the first
  "CAD" is 7.5, outside the plausible range, and the name pattern has no match; yet the
  fallback returns 1.5, taken at the later "CAD", because the code pattern does not match at
  the first "CAD" (a digit stands between it and the decimal) and first matches at the
  second.
\<close>

theorem later_cad_counterexample:
  "re_search ([], decimal_group) '' 9 7.5 CAD 1.5'' = Some ''7.5''
   \<and> sample_float ''7.5'' = Some (Finite (15 / 2))
   \<and> \<not> plausible (Finite (15 / 2))
   \<and> pattern_value sample_float name_pattern (''CAD'' @ '' 9 7.5 CAD 1.5'') = None
   \<and> text_method sample_float \<lparr>rows = [], text_content = ''CAD'' @ '' 9 7.5 CAD 1.5''\<rparr> None
       = Some (Finite (3 / 2))"
  by (simp add: text_method_def patterns_def pattern_value_def pattern_eval sample_float_def)

text \<open>
  C10, amended. In the pattern fallback only the first match of a pattern counts, that is,
  for the code pattern, the first "CAD" that is followed, after non-digits only, by digits, a
  point and digits. When the decimal of that match is not accepted, the result is what the
  name pattern alone gives, whatever stands in \<open>post\<close>: "CAD 150.0 then CAD 1.29" yields
  nothing, and "Canadian Dollar 1.29 (CAD 150.0) CAD 1.31" yields 1.29 from the name pattern,
  not 1.31 from the later "CAD".
\<close>

theorem fallback_first_match_only:
  "(re_search cad_pattern text = Some g \<and> accept pf g = None
      \<longrightarrow> text_method pf \<lparr>rows = rs, text_content = text\<rparr> None = pattern_value pf name_pattern text)
   \<and> (\<not> contains ''CAD'' pre \<and> list_all (\<lambda>c. \<not> is_digit c) gap
        \<and> list_all is_digit ip \<and> ip \<noteq> [] \<and> list_all is_digit fp \<and> fp \<noteq> []
        \<and> blocked Digit post \<and> accept pf (ip @ ''.'' @ fp) = None
      \<longrightarrow> text_method pf \<lparr>rows = rs, text_content = pre @ ''CAD'' @ gap @ ip @ ''.'' @ fp @ post\<rparr> None
            = pattern_value pf name_pattern (pre @ ''CAD'' @ gap @ ip @ ''.'' @ fp @ post))
   \<and> (pf ''150.0'' = Some (Finite 150)
      \<longrightarrow> text_method pf \<lparr>rows = rs, text_content = ''CAD 150.0 then CAD 1.29''\<rparr> None = None)
   \<and> (pf ''150.0'' = Some (Finite 150) \<and> pf ''1.29'' = Some r \<and> plausible r
      \<longrightarrow> text_method pf \<lparr>rows = rs, text_content = ''Canadian Dollar 1.29 (CAD 150.0) CAD 1.31''\<rparr> None
            = Some r)"
proof -
  have first: "text_method pf \<lparr>rows = rs', text_content = t\<rparr> None = pattern_value pf name_pattern t"
    if "re_search cad_pattern t = Some g'" and "accept pf g' = None" for rs' t g'
  proof -
    have "contains ''CAD'' t"
      using that(1) unfolding cad_pattern_def by (rule re_search_contains)
    moreover have "pattern_value pf cad_pattern t = None"
      using that by (simp add: pattern_value_def)
    ultimately show ?thesis by (simp add: text_method_eq spec_fallback_def)
  qed
  show ?thesis
  proof (intro conjI impI)
    assume "re_search cad_pattern text = Some g \<and> accept pf g = None"
    then show "text_method pf \<lparr>rows = rs, text_content = text\<rparr> None = pattern_value pf name_pattern text"
      using first by blast
  next
    let ?t = "pre @ ''CAD'' @ gap @ ip @ ''.'' @ fp @ post"
    assume h: "\<not> contains ''CAD'' pre \<and> list_all (\<lambda>c. \<not> is_digit c) gap
        \<and> list_all is_digit ip \<and> ip \<noteq> [] \<and> list_all is_digit fp \<and> fp \<noteq> []
        \<and> blocked Digit post \<and> accept pf (ip @ ''.'' @ fp) = None"
    then have "re_search cad_pattern ?t = Some (ip @ ''.'' @ fp)"
      by (intro re_search_cad_first) auto
    with h show "text_method pf \<lparr>rows = rs, text_content = ?t\<rparr> None = pattern_value pf name_pattern ?t"
      using first by blast
  next
    assume h: "pf ''150.0'' = Some (Finite 150)"
    then have rej: "accept pf ''150.0'' = None" by (simp add: accept_def)
    have m: "re_search cad_pattern ''CAD 150.0 then CAD 1.29'' = Some ''150.0''"
      by (simp add: pattern_eval)
    have "pattern_value pf name_pattern ''CAD 150.0 then CAD 1.29'' = None"
      by (simp add: pattern_value_def pattern_eval)
    with first [OF m rej]
    show "text_method pf \<lparr>rows = rs, text_content = ''CAD 150.0 then CAD 1.29''\<rparr> None = None"
      by simp
  next
    assume h: "pf ''150.0'' = Some (Finite 150) \<and> pf ''1.29'' = Some r \<and> plausible r"
    then have rej: "accept pf ''150.0'' = None" and acc: "accept pf ''1.29'' = Some r"
      by (simp_all add: accept_def)
    have m: "re_search cad_pattern ''Canadian Dollar 1.29 (CAD 150.0) CAD 1.31'' = Some ''150.0''"
      by (simp add: pattern_eval)
    have "re_search name_pattern ''Canadian Dollar 1.29 (CAD 150.0) CAD 1.31'' = Some ''1.29''"
      by (simp add: pattern_eval)
    with acc have "pattern_value pf name_pattern ''Canadian Dollar 1.29 (CAD 150.0) CAD 1.31'' = Some r"
      by (simp add: pattern_value_def)
    with first [OF m rej]
    show "text_method pf \<lparr>rows = rs, text_content = ''Canadian Dollar 1.29 (CAD 150.0) CAD 1.31''\<rparr> None
            = Some r"
      by simp
  qed
qed

theorem fallback_first_match_only_witness:
  "\<not> contains ''CAD'' [] \<and> list_all (\<lambda>c. \<not> is_digit c) '' ''
   \<and> list_all is_digit ''150'' \<and> ''150'' \<noteq> [] \<and> list_all is_digit ''0'' \<and> ''0'' \<noteq> []
   \<and> blocked Digit '' then CAD 1.29''
   \<and> accept sample_float (''150'' @ ''.'' @ ''0'') = None
   \<and> text_method sample_float
         \<lparr>rows = [], text_content = [] @ ''CAD'' @ '' '' @ ''150'' @ ''.'' @ ''0'' @ '' then CAD 1.29''\<rparr> None
       = pattern_value sample_float name_pattern
           ([] @ ''CAD'' @ '' '' @ ''150'' @ ''.'' @ ''0'' @ '' then CAD 1.29'')
   \<and> re_search cad_pattern ''CAD 150.0 then CAD 1.29'' = Some ''150.0''
   \<and> sample_float ''150.0'' = Some (Finite 150)
   \<and> text_method sample_float \<lparr>rows = [], text_content = ''CAD 150.0 then CAD 1.29''\<rparr> None = None
   \<and> sample_float ''1.29'' = Some (Finite (129 / 100)) \<and> plausible (Finite (129 / 100))
   \<and> text_method sample_float
         \<lparr>rows = [], text_content = ''Canadian Dollar 1.29 (CAD 150.0) CAD 1.31''\<rparr> None
       = Some (Finite (129 / 100))"
proof -
  have a: "\<not> contains ''CAD'' []" by simp
  have b: "list_all (\<lambda>c. \<not> is_digit c) '' ''" by (simp add: is_digit_def)
  have c: "list_all is_digit ''150'' \<and> ''150'' \<noteq> [] \<and> list_all is_digit ''0'' \<and> ''0'' \<noteq> []"
    by (simp add: is_digit_def)
  have d: "blocked Digit '' then CAD 1.29''" by (simp add: is_digit_def)
  have e: "accept sample_float (''150'' @ ''.'' @ ''0'') = None"
    by (simp add: accept_def sample_float_def)
  have g: "re_search cad_pattern ''CAD 150.0 then CAD 1.29'' = Some ''150.0''"
    by (simp add: pattern_eval)
  have h: "sample_float ''150.0'' = Some (Finite 150)" by (simp add: sample_float_def)
  have k: "sample_float ''1.29'' = Some (Finite (129 / 100))" by (simp add: sample_float_def)
  have l: "plausible (Finite (129 / 100))" by simp
  note general = fallback_first_match_only
         [where pf = sample_float and rs = "[]" and pre = "[]" and gap = "'' ''" and ip = "''150''"
            and fp = "''0''" and post = "'' then CAD 1.29''"
            and ?text = "''CAD 150.0 then CAD 1.29''" and g = "''150.0''"
            and r = "Finite (129 / 100)"]
  from general a b c d e
  have one: "text_method sample_float
         \<lparr>rows = [], text_content = [] @ ''CAD'' @ '' '' @ ''150'' @ ''.'' @ ''0'' @ '' then CAD 1.29''\<rparr> None
       = pattern_value sample_float name_pattern
           ([] @ ''CAD'' @ '' '' @ ''150'' @ ''.'' @ ''0'' @ '' then CAD 1.29'')"
    by blast
  from general h
  have two: "text_method sample_float \<lparr>rows = [], text_content = ''CAD 150.0 then CAD 1.29''\<rparr> None = None"
    by blast
  from general h k l
  have three: "text_method sample_float
         \<lparr>rows = [], text_content = ''Canadian Dollar 1.29 (CAD 150.0) CAD 1.31''\<rparr> None
       = Some (Finite (129 / 100))"
    by blast
  from a b c d e g h k l one two three show ?thesis by blast
qed

text \<open>
  C5. One call of \<open>wait\<close>, on a limiter \<open>rl\<close> whose \<open>last_request_time\<close> is the clock reading
  of the previous return. Assumed of the environment: \<open>random.uniform(a, b)\<close> returns a number
  between \<open>a\<close> and \<open>b\<close>; rounding is monotone and leaves the floats 20 and 25 alone; the
  difference of the two clock readings and, when the call sleeps, the sleep length are
  computed without rounding error; and after \<open>time.sleep(s)\<close> the clock reads at least \<open>s\<close>
  more than before it (not less than before, when the call does not sleep). Then the burst
  limit is 5, the cooldown 20, the delays 2.5 and 5; on every fifth call the delay is the
  float sum of 20 and a jitter between 0 and 5, lies between 20 and 25, and the return is at
  least 20 after the previous one; on every other call the delay is the number drawn from
  2.5 to 5.0; and in every case the return is at least the delay, hence at least 2.5, after
  the previous one. That the draw is uniformly distributed is not expressed.
\<close>

theorem pacing_controller:
  assumes draws: "0 \<le> uniform env 0 5" "uniform env 0 5 \<le> 5"
      "min_delay \<le> uniform env min_delay max_delay" "uniform env min_delay max_delay \<le> max_delay"
    and rounding: "\<forall>x y. x \<le> y \<longrightarrow> rounded env x \<le> rounded env y"
      "rounded env 20 = 20" "rounded env 25 = 25"
    and exact_elapsed: "rounded env (time_before env - last_request_time rl)
                          = time_before env - last_request_time rl"
    and exact_sleep: "time_before env - last_request_time rl < fst (wait env rl) \<longrightarrow>
           rounded env (fst (wait env rl) - (time_before env - last_request_time rl))
             = fst (wait env rl) - (time_before env - last_request_time rl)"
    and slept: "case sleep_time env rl (fst (wait env rl)) of
                  Some s \<Rightarrow> time_before env + s \<le> time_after env
                | None \<Rightarrow> time_before env \<le> time_after env"
  shows "burst_limit = 5 \<and> burst_cooldown = 20 \<and> min_delay = 5 / 2 \<and> max_delay = 5
         \<and> request_count (snd (wait env rl)) = request_count rl + 1
         \<and> last_request_time (snd (wait env rl)) = time_after env
         \<and> ((request_count rl + 1) mod 5 = 0 \<longrightarrow>
               fst (wait env rl) = rounded env (20 + uniform env 0 5)
               \<and> 20 \<le> fst (wait env rl) \<and> fst (wait env rl) \<le> 25
               \<and> 20 \<le> last_request_time (snd (wait env rl)) - last_request_time rl)
         \<and> ((request_count rl + 1) mod 5 \<noteq> 0 \<longrightarrow>
               fst (wait env rl) = uniform env (5 / 2) 5
               \<and> 5 / 2 \<le> fst (wait env rl) \<and> fst (wait env rl) \<le> 5)
         \<and> fst (wait env rl) \<le> last_request_time (snd (wait env rl)) - last_request_time rl
         \<and> 5 / 2 \<le> last_request_time (snd (wait env rl)) - last_request_time rl"
proof -
  let ?n = "request_count rl + 1" and ?d = "fst (wait env rl)"
  have vals: "burst_limit = 5" "burst_cooldown = 20" "min_delay = 5 / 2" "max_delay = 5"
    by (simp_all add: burst_limit_def burst_cooldown_def min_delay_def max_delay_def)
  have gap: "?d \<le> time_after env - last_request_time rl"
    using exact_elapsed exact_sleep slept by (rule wait_gap)
  have burst: "?d = rounded env (20 + uniform env 0 5) \<and> 20 \<le> ?d \<and> ?d \<le> 25" if "?n mod 5 = 0"
  proof -
    have "?d = rounded env (20 + uniform env 0 5)"
      using that by (simp add: wait_delay choose_delay_def burst_limit_def burst_cooldown_def)
    with burst_delay_bounds [OF draws(1,2) rounding] show ?thesis by (simp only:)
  qed
  have normal: "?d = uniform env (5 / 2) 5 \<and> 5 / 2 \<le> ?d \<and> ?d \<le> 5" if "?n mod 5 \<noteq> 0"
  proof -
    have "?d = uniform env (5 / 2) 5"
      using that by (simp add: wait_delay choose_delay_def burst_limit_def min_delay_def max_delay_def)
    with draws(3,4) show ?thesis by (simp add: min_delay_def max_delay_def)
  qed
  have low: "5 / 2 \<le> ?d"
  proof (cases "?n mod 5 = 0")
    case True
    with burst have "20 \<le> ?d" by blast
    then show ?thesis by simp
  next
    case False
    with normal show ?thesis by blast
  qed
  have gap': "?d \<le> last_request_time (snd (wait env rl)) - last_request_time rl"
    using gap by (simp only: wait_state)
  have far: "5 / 2 \<le> last_request_time (snd (wait env rl)) - last_request_time rl"
    using low gap' by (rule order_trans)
  have burst_gap: "20 \<le> last_request_time (snd (wait env rl)) - last_request_time rl"
    if "?n mod 5 = 0"
  proof -
    from burst [OF that] have "20 \<le> ?d" by blast
    then show ?thesis using gap' by (rule order_trans)
  qed
  show ?thesis
  proof (intro conjI impI)
    assume b: "?n mod 5 = 0"
    from burst [OF b] show "?d = rounded env (20 + uniform env 0 5)" "20 \<le> ?d" "?d \<le> 25"
      by blast+
    from burst_gap [OF b]
    show "20 \<le> last_request_time (snd (wait env rl)) - last_request_time rl" .
  next
    assume nb: "?n mod 5 \<noteq> 0"
    from normal [OF nb] show "?d = uniform env (5 / 2) 5" "5 / 2 \<le> ?d" "?d \<le> 5"
      by blast+
  qed (fact vals wait_state gap' far)+
qed

theorem pacing_controller_witness:
  "fst (wait (timed_env 101 120) \<lparr>request_count = 4, last_request_time = 100, session_start = 0\<rparr>)
     = 20
   \<and> sleep_time (timed_env 101 120) \<lparr>request_count = 4, last_request_time = 100, session_start = 0\<rparr> 20
       = Some 19
   \<and> snd (wait (timed_env 101 120) \<lparr>request_count = 4, last_request_time = 100, session_start = 0\<rparr>)
       = \<lparr>request_count = 5, last_request_time = 120, session_start = 0\<rparr>
   \<and> (20::rat) \<le> 120 - 100
   \<and> fst (wait (timed_env 121 (245 / 2)) \<lparr>request_count = 5, last_request_time = 120, session_start = 0\<rparr>)
       = 5 / 2
   \<and> sleep_time (timed_env 121 (245 / 2))
        \<lparr>request_count = 5, last_request_time = 120, session_start = 0\<rparr> (5 / 2) = Some (3 / 2)
   \<and> last_request_time (snd (wait (timed_env 121 (245 / 2))
        \<lparr>request_count = 5, last_request_time = 120, session_start = 0\<rparr>)) = 245 / 2
   \<and> (5 / 2 :: rat) \<le> 245 / 2 - 120"
proof -
  let ?rl4 = "\<lparr>request_count = 4, last_request_time = 100, session_start = 0\<rparr>"
  let ?rl5 = "\<lparr>request_count = 5, last_request_time = 120, session_start = 0\<rparr>"
  have d5: "fst (wait (timed_env 101 120) ?rl4) = 20"
    by (simp add: wait_def choose_delay_def timed_env_def burst_limit_def burst_cooldown_def)
  have s5: "sleep_time (timed_env 101 120) ?rl4 20 = Some 19"
    by (simp add: sleep_time_def timed_env_def)
  have r5: "snd (wait (timed_env 101 120) ?rl4) = ?rl5"
    by (simp add: wait_def timed_env_def)
  have d6: "fst (wait (timed_env 121 (245 / 2)) ?rl5) = 5 / 2"
    by (simp add: wait_def choose_delay_def timed_env_def burst_limit_def min_delay_def)
  have s6: "sleep_time (timed_env 121 (245 / 2)) ?rl5 (5 / 2) = Some (3 / 2)"
    by (simp add: sleep_time_def timed_env_def)
  have mono: "\<forall>x y. x \<le> y \<longrightarrow> rounded (timed_env a b) x \<le> rounded (timed_env a b) y" for a b
    by (simp add: timed_env_def)
  have pre5: "0 \<le> uniform (timed_env 101 120) 0 5" "uniform (timed_env 101 120) 0 5 \<le> 5"
    "min_delay \<le> uniform (timed_env 101 120) min_delay max_delay"
    "uniform (timed_env 101 120) min_delay max_delay \<le> max_delay"
    "rounded (timed_env 101 120) 20 = 20" "rounded (timed_env 101 120) 25 = 25"
    "rounded (timed_env 101 120) (time_before (timed_env 101 120) - last_request_time ?rl4)
       = time_before (timed_env 101 120) - last_request_time ?rl4"
    by (simp_all add: timed_env_def min_delay_def max_delay_def)
  have ex5: "time_before (timed_env 101 120) - last_request_time ?rl4 < fst (wait (timed_env 101 120) ?rl4)
      \<longrightarrow> rounded (timed_env 101 120)
            (fst (wait (timed_env 101 120) ?rl4) - (time_before (timed_env 101 120) - last_request_time ?rl4))
          = fst (wait (timed_env 101 120) ?rl4) - (time_before (timed_env 101 120) - last_request_time ?rl4)"
    by (simp add: timed_env_def)
  have sl5: "case sleep_time (timed_env 101 120) ?rl4 (fst (wait (timed_env 101 120) ?rl4)) of
               Some s \<Rightarrow> time_before (timed_env 101 120) + s \<le> time_after (timed_env 101 120)
             | None \<Rightarrow> time_before (timed_env 101 120) \<le> time_after (timed_env 101 120)"
    unfolding d5 s5 by (simp add: timed_env_def)
  have fifth: "20 \<le> last_request_time (snd (wait (timed_env 101 120) ?rl4)) - last_request_time ?rl4"
    using pacing_controller [OF pre5(1-4) mono pre5(5-7) ex5 sl5] by simp
  have pre6: "0 \<le> uniform (timed_env 121 (245 / 2)) 0 5" "uniform (timed_env 121 (245 / 2)) 0 5 \<le> 5"
    "min_delay \<le> uniform (timed_env 121 (245 / 2)) min_delay max_delay"
    "uniform (timed_env 121 (245 / 2)) min_delay max_delay \<le> max_delay"
    "rounded (timed_env 121 (245 / 2)) 20 = 20" "rounded (timed_env 121 (245 / 2)) 25 = 25"
    "rounded (timed_env 121 (245 / 2)) (time_before (timed_env 121 (245 / 2)) - last_request_time ?rl5)
       = time_before (timed_env 121 (245 / 2)) - last_request_time ?rl5"
    by (simp_all add: timed_env_def min_delay_def max_delay_def)
  have ex6: "time_before (timed_env 121 (245 / 2)) - last_request_time ?rl5
        < fst (wait (timed_env 121 (245 / 2)) ?rl5)
      \<longrightarrow> rounded (timed_env 121 (245 / 2))
            (fst (wait (timed_env 121 (245 / 2)) ?rl5)
               - (time_before (timed_env 121 (245 / 2)) - last_request_time ?rl5))
          = fst (wait (timed_env 121 (245 / 2)) ?rl5)
               - (time_before (timed_env 121 (245 / 2)) - last_request_time ?rl5)"
    by (simp add: timed_env_def)
  have sl6: "case sleep_time (timed_env 121 (245 / 2)) ?rl5 (fst (wait (timed_env 121 (245 / 2)) ?rl5)) of
               Some s \<Rightarrow> time_before (timed_env 121 (245 / 2)) + s \<le> time_after (timed_env 121 (245 / 2))
             | None \<Rightarrow> time_before (timed_env 121 (245 / 2)) \<le> time_after (timed_env 121 (245 / 2))"
    unfolding d6 s6 by (simp add: timed_env_def)
  have sixth: "5 / 2 \<le> last_request_time (snd (wait (timed_env 121 (245 / 2)) ?rl5)) - last_request_time ?rl5"
    using pacing_controller [OF pre6(1-4) mono pre6(5-7) ex6 sl6] by blast
  have l6: "last_request_time (snd (wait (timed_env 121 (245 / 2)) ?rl5)) = 245 / 2"
    by (simp add: wait_def timed_env_def)
  from fifth r5 have "(20::rat) \<le> 120 - 100" by simp
  moreover from sixth l6 have "(5 / 2 :: rat) \<le> 245 / 2 - 120" by simp
  ultimately show ?thesis using d5 s5 r5 d6 s6 l6 by blast
qed

text \<open>
  C6. The claim is that a range request with a missing or unparseable date, with the start
  after the end or with more than 90 days is rejected with a validation error before any
  fetch. No such request fetches: by \<open>scrape_rates_invalid\<close> the limiter, whose counter every
  call of the fetcher increments, is returned unchanged. When both fields are absent or
  strings the reply is a 400 reply (\<open>scrape_rates_invalid_strings\<close>). But a date that is a
  number is true for the test of line 229 and makes \<open>strptime\<close> raise \<open>TypeError\<close>, which
  line 235 does not catch: the handler, which answers an unparseable string with "Invalid
  date format", is left by the exception instead.
\<close>

theorem non_string_date_unhandled:
  "\<not> valid_request strptime (JNumber 20240227) (JString ''2024-03-01'')
   \<and> scrape_rates strptime strftime pf w rl
        (JObject [(''start_date'', JNumber 20240227), (''end_date'', JString ''2024-03-01'')])
       = (Unhandled TypeError, rl)"
  by (simp add: scrape_rates_def dict_get_def on_strptime_error_def valid_request_def)

text \<open>
  C7. As stated the claim fails on the text of the message: for a page without any rate the
  result has status \<open>not_found\<close> and no rate, but its error is not "rate not found in page".
\<close>

theorem not_found_message_counterexample:
  "extract_rate sample_float empty_page = None
   \<and> status (fst (scrape_xe_rate sample_float (sample_world (Page empty_page)) (rate_limiter 0)
        ''2024-02-27'')) = Not_found
   \<and> rate (fst (scrape_xe_rate sample_float (sample_world (Page empty_page)) (rate_limiter 0)
        ''2024-02-27'')) = None
   \<and> error (fst (scrape_xe_rate sample_float (sample_world (Page empty_page)) (rate_limiter 0)
        ''2024-02-27'')) \<noteq> Some ''rate not found in page''"
  by (simp add: scrape_xe_rate_result result_of_def sample_world_def sample_env_def
        extract_rate_def table_method_def text_method_def empty_page_def)

text \<open>
  C7, amended. When the fetch succeeds and the extraction returns no value, the result of the
  fetcher has status \<open>not_found\<close>, no rate, and the error "CAD rate not found in page".
\<close>

theorem not_found_result:
  "response (w (request_count rl)) (url_for d) = Page doc \<Longrightarrow> extract_rate pf doc = None \<Longrightarrow>
     fst (scrape_xe_rate pf w rl d)
       = \<lparr>date = d, rate = None, status = Not_found, error = Some ''CAD rate not found in page''\<rparr>"
  by (simp add: scrape_xe_rate_result result_of_def)

theorem not_found_result_witness:
  "response (sample_world (Page empty_page) (request_count (rate_limiter 0))) (url_for ''2024-02-27'')
     = Page empty_page
   \<and> extract_rate sample_float empty_page = None
   \<and> fst (scrape_xe_rate sample_float (sample_world (Page empty_page)) (rate_limiter 0) ''2024-02-27'')
       = \<lparr>date = ''2024-02-27'', rate = None, status = Not_found,
          error = Some ''CAD rate not found in page''\<rparr>"
proof -
  have a: "response (sample_world (Page empty_page) (request_count (rate_limiter 0))) (url_for ''2024-02-27'')
     = Page empty_page"
    by (simp add: sample_world_def sample_env_def)
  have b: "extract_rate sample_float empty_page = None"
    by (simp add: extract_rate_def table_method_def text_method_def empty_page_def)
  from not_found_result [where w = "sample_world (Page empty_page)" and rl = "rate_limiter 0"
         and d = "''2024-02-27''" and doc = empty_page and pf = sample_float, OF a b] a b
  show ?thesis by blast
qed

text \<open>
  C8. As stated the claim fails on the text of the message: after a transport timeout the
  result has status \<open>error\<close>, but its error is not "request timed out".
\<close>

theorem timeout_message_counterexample:
  "response (sample_world Timeout (request_count (rate_limiter 0))) (url_for ''2024-02-27'') = Timeout
   \<and> status (fst (scrape_xe_rate sample_float (sample_world Timeout) (rate_limiter 0) ''2024-02-27''))
       = Error
   \<and> error (fst (scrape_xe_rate sample_float (sample_world Timeout) (rate_limiter 0) ''2024-02-27''))
       \<noteq> Some ''request timed out''"
  by (simp add: scrape_xe_rate_result result_of_def sample_world_def sample_env_def)

text \<open>
  C8, amended. A transport timeout gives status \<open>error\<close> with the error "Request timed out";
  any other transport failure gives status \<open>error\<close> with the transport's message; any other
  exception raised while the page is fetched and interpreted gives status \<open>error\<close> with the
  error "Parsing error: " followed by its message. The failure stays in that date's result:
  over a list of dates the loop returns one result for every date, in order, whatever the
  requests deliver.
\<close>

theorem failures_are_captured:
  "(response (w (request_count rl)) (url_for d) = Timeout
      \<longrightarrow> fst (scrape_xe_rate pf w rl d)
            = \<lparr>date = d, rate = None, status = Error, error = Some ''Request timed out''\<rparr>)
   \<and> (response (w (request_count rl)) (url_for d) = RequestException msg
      \<longrightarrow> fst (scrape_xe_rate pf w rl d)
            = \<lparr>date = d, rate = None, status = Error, error = Some msg\<rparr>)
   \<and> (response (w (request_count rl)) (url_for d) = OtherException msg
      \<longrightarrow> fst (scrape_xe_rate pf w rl d)
            = \<lparr>date = d, rate = None, status = Error, error = Some (''Parsing error: '' @ msg)\<rparr>)
   \<and> map date (fst (scrape_each pf w rl ds [])) = ds"
proof (intro conjI impI)
  show "map date (fst (scrape_each pf w rl ds [])) = ds"
    by (simp only: scrape_each_results append_Nil fetch_at_dates)
qed (simp_all add: scrape_xe_rate_result result_of_def)

theorem failures_are_captured_witness:
  "response (sample_world Timeout (request_count (rate_limiter 0))) (url_for ''2024-02-27'') = Timeout
   \<and> fst (scrape_xe_rate sample_float (sample_world Timeout) (rate_limiter 0) ''2024-02-27'')
       = \<lparr>date = ''2024-02-27'', rate = None, status = Error, error = Some ''Request timed out''\<rparr>
   \<and> response (sample_world (RequestException ''404 Client Error'') (request_count (rate_limiter 0)))
        (url_for ''2024-02-27'') = RequestException ''404 Client Error''
   \<and> fst (scrape_xe_rate sample_float (sample_world (RequestException ''404 Client Error''))
        (rate_limiter 0) ''2024-02-27'')
       = \<lparr>date = ''2024-02-27'', rate = None, status = Error, error = Some ''404 Client Error''\<rparr>
   \<and> response (sample_world (OtherException ''no parser'') (request_count (rate_limiter 0)))
        (url_for ''2024-02-27'') = OtherException ''no parser''
   \<and> fst (scrape_xe_rate sample_float (sample_world (OtherException ''no parser''))
        (rate_limiter 0) ''2024-02-27'')
       = \<lparr>date = ''2024-02-27'', rate = None, status = Error,
          error = Some (''Parsing error: '' @ ''no parser'')\<rparr>
   \<and> map date (fst (scrape_each sample_float (sample_world Timeout) (rate_limiter 0)
        [''2024-02-27'', ''2024-02-28''] [])) = [''2024-02-27'', ''2024-02-28'']"
proof -
  have a: "response (sample_world out (request_count (rate_limiter 0))) (url_for ''2024-02-27'') = out"
    for out
    by (simp add: sample_world_def sample_env_def)
  note t1 = failures_are_captured [where w = "sample_world Timeout" and rl = "rate_limiter 0"
              and d = "''2024-02-27''" and pf = sample_float and ds = "[''2024-02-27'', ''2024-02-28'']"]
  note t2 = failures_are_captured [where w = "sample_world (RequestException ''404 Client Error'')"
              and rl = "rate_limiter 0" and d = "''2024-02-27''" and pf = sample_float
              and msg = "''404 Client Error''"]
  note t3 = failures_are_captured [where w = "sample_world (OtherException ''no parser'')"
              and rl = "rate_limiter 0" and d = "''2024-02-27''" and pf = sample_float
              and msg = "''no parser''"]
  from t1 t2 t3 a [of Timeout] a [of "RequestException ''404 Client Error''"]
    a [of "OtherException ''no parser''"]
  show ?thesis by blast
qed

text \<open>
  C9. Every result of the single-date fetcher has a rate exactly when its status is
  \<open>success\<close>; with status \<open>not_found\<close> or \<open>error\<close> the rate is absent; and a rate that is
  present is a finite number strictly between 0.5 and 2.5.
\<close>

theorem fetch_result_invariant:
  "r = fst (scrape_xe_rate pf w rl d) \<Longrightarrow>
     (rate r \<noteq> None) = (status r = Success)
     \<and> (status r = Not_found \<or> status r = Error \<longrightarrow> rate r = None)
     \<and> (\<forall>v. rate r = Some v \<longrightarrow> (\<exists>q. v = Finite q \<and> 1 / 2 < q \<and> q < 5 / 2))"
proof -
  assume r: "r = fst (scrape_xe_rate pf w rl d)"
  define out where "out = response (w (request_count rl)) (url_for d)"
  have eq: "r = result_of pf d out" by (simp add: r out_def scrape_xe_rate_result)
  have one: "(rate r \<noteq> None) = (status r = Success)"
    unfolding eq by (rule result_of_rate_status)
  then have two: "status r = Not_found \<or> status r = Error \<longrightarrow> rate r = None" by auto
  have three: "\<forall>v. rate r = Some v \<longrightarrow> (\<exists>q. v = Finite q \<and> 1 / 2 < q \<and> q < 5 / 2)"
    unfolding eq by (blast dest: result_of_rate_plausible plausible_finite)
  from one two three show ?thesis by blast
qed

theorem fetch_result_invariant_witness:
  "fst (scrape_xe_rate sample_float (sample_world (Page sample_page)) (rate_limiter 0) ''2024-02-27'')
     = \<lparr>date = ''2024-02-27'', rate = Some (Finite (13612 / 10000)), status = Success, error = None\<rparr>
   \<and> (\<exists>q. Finite (13612 / 10000) = Finite q \<and> 1 / 2 < q \<and> q < 5 / 2)
   \<and> rate (fst (scrape_xe_rate sample_float (sample_world Timeout) (rate_limiter 0) ''2024-02-27'')) = None
   \<and> status (fst (scrape_xe_rate sample_float (sample_world Timeout) (rate_limiter 0) ''2024-02-27''))
       = Error"
proof -
  have tab: "table_method sample_float sample_page = Some (Finite (13612 / 10000))"
    by (simp add: table_method_def sample_page_def is_marker_def sample_float_def remove_commas_def)
  then have ext: "extract_rate sample_float sample_page = Some (Finite (13612 / 10000))"
    by (simp add: extract_rate_def)
  have ok: "fst (scrape_xe_rate sample_float (sample_world (Page sample_page)) (rate_limiter 0) ''2024-02-27'')
     = \<lparr>date = ''2024-02-27'', rate = Some (Finite (13612 / 10000)), status = Success, error = None\<rparr>"
    by (simp add: scrape_xe_rate_result result_of_def sample_world_def sample_env_def ext)
  have st: "status (fst (scrape_xe_rate sample_float (sample_world Timeout) (rate_limiter 0) ''2024-02-27''))
       = Error"
    by (simp add: scrape_xe_rate_result result_of_def sample_world_def sample_env_def)
  from fetch_result_invariant [where pf = sample_float and w = "sample_world (Page sample_page)"
         and rl = "rate_limiter 0" and d = "''2024-02-27''", OF ok [symmetric]]
  have q: "\<exists>q. Finite (13612 / 10000) = Finite q \<and> 1 / 2 < q \<and> q < 5 / 2" by simp
  from fetch_result_invariant [OF refl, of sample_float "sample_world Timeout" "rate_limiter 0" "''2024-02-27''"] st
  have no: "rate (fst (scrape_xe_rate sample_float (sample_world Timeout) (rate_limiter 0) ''2024-02-27'')) = None"
    by blast
  from ok q no st show ?thesis by blast
qed

text \<open>
  C1. The claim is that every valid range (start not after end, at most 90 days) returns one
  result per day. \<open>scrape_rates_valid\<close> above shows this for every range that ends before
  9999-12-31: the reply holds \<open>end - start + 1\<close> results, their dates are the days from start
  to end in ascending order, and the fetcher was called once for each. For a range that ends
  on 9999-12-31, the last day a \<open>datetime\<close> can hold, \<open>get_date_range\<close> appends that day and
  then adds one day to it, which raises \<open>OverflowError\<close>: the handler is left by the exception
  with no result and no fetch, although the docstring of \<open>get_date_range\<close> promises the list
  of dates between start and end, inclusive.
\<close>

theorem last_day_overflow:
  "get_date_range strftime MAXORDINAL MAXORDINAL = Inl OverflowError
   \<and> scrape_rates sample_strptime strftime pf w rl
        (JObject [(''start_date'', JString ''9999-12-31''), (''end_date'', JString ''9999-12-31'')])
       = (Unhandled OverflowError, rl)"
proof -
  have "get_date_range strftime MAXORDINAL MAXORDINAL = Inl OverflowError"
    unfolding get_date_range_def by (rule get_date_range_loop_overflow) simp_all
  moreover have "sample_strptime ''9999-12-31'' = Some MAXORDINAL"
    by (simp add: sample_strptime_def MAXORDINAL_def)
  ultimately show ?thesis by (simp add: scrape_rates_def dict_get_def scrape_range_def)
qed

end
